theory Spec2Isabelle
  imports Complex_Main "HOL-Library.Sublist"
begin

section \<open>Strings and constants\<close>

text \<open>
  A JavaScript string is a sequence of code units. The decoder and the lexical rules
  only ever compare code units with ASCII characters, so a string is modelled as a
  \<^typ>\<open>string\<close> whose characters stand for the code units U+0000 .. U+00FF.
  The constants below are those of \<^verbatim>\<open>constants.ts\<close>.
\<close>

definition COMMA :: char where "COMMA = CHR '',''"
definition COLON :: char where "COLON = CHR '':''"
definition SPACE :: char where "SPACE = CHR '' ''"
definition PIPE :: char where "PIPE = CHR ''|''"
definition HASH :: char where "HASH = CHR ''#''"
definition OPEN_BRACKET :: char where "OPEN_BRACKET = CHR ''[''"
definition CLOSE_BRACKET :: char where "CLOSE_BRACKET = CHR '']''"
definition OPEN_BRACE :: char where "OPEN_BRACE = CHR ''{''"
definition CLOSE_BRACE :: char where "CLOSE_BRACE = CHR ''}''"
definition BACKSLASH :: char where "BACKSLASH = CHR 0x5C"
definition DOUBLE_QUOTE :: char where "DOUBLE_QUOTE = CHR 0x22"
definition NEWLINE :: char where "NEWLINE = CHR 0x0A"
definition CARRIAGE_RETURN :: char where "CARRIAGE_RETURN = CHR 0x0D"
definition TAB :: char where "TAB = CHR 0x09"
definition LIST_ITEM_PREFIX :: string where "LIST_ITEM_PREFIX = ''- ''"
definition NULL_LITERAL :: string where "NULL_LITERAL = ''null''"
definition TRUE_LITERAL :: string where "TRUE_LITERAL = ''true''"
definition FALSE_LITERAL :: string where "FALSE_LITERAL = ''false''"

lemmas char_consts =
  COMMA_def COLON_def SPACE_def PIPE_def HASH_def OPEN_BRACKET_def CLOSE_BRACKET_def
  OPEN_BRACE_def CLOSE_BRACE_def BACKSLASH_def DOUBLE_QUOTE_def NEWLINE_def
  CARRIAGE_RETURN_def TAB_def

text \<open>
  \<^verbatim>\<open>String.prototype.trim\<close> strips the ECMAScript white space and line terminator
  code units; those below U+0100 are TAB, LF, VT, FF, CR, SPACE and NBSP.
\<close>

definition isWhiteSpace :: "char \<Rightarrow> bool" where
  "isWhiteSpace c \<longleftrightarrow>
     c = CHR 0x09 \<or> c = CHR 0x0A \<or> c = CHR 0x0B \<or> c = CHR 0x0C \<or> c = CHR 0x0D \<or>
     c = CHR 0x20 \<or> c = CHR 0xA0"

definition trimStart :: "string \<Rightarrow> string" where
  "trimStart s = dropWhile isWhiteSpace s"

definition trimEnd :: "string \<Rightarrow> string" where
  "trimEnd s = rev (dropWhile isWhiteSpace (rev s))"

definition trim :: "string \<Rightarrow> string" where
  "trim s = trimEnd (trimStart s)"

definition startsWith :: "string \<Rightarrow> string \<Rightarrow> bool" where
  "startsWith s p \<longleftrightarrow> take (length p) s = p"

definition endsWith :: "string \<Rightarrow> string \<Rightarrow> bool" where
  "endsWith s p \<longleftrightarrow> length p \<le> length s \<and> drop (length s - length p) s = p"

definition includes_char :: "string \<Rightarrow> char \<Rightarrow> bool" where
  "includes_char s c \<longleftrightarrow> c \<in> set s"

section \<open>Errors\<close>

text \<open>
  Every \<^verbatim>\<open>throw\<close> of the source is a value: the JavaScript error class with the
  message it carries. Line numbers and offending characters are kept, since the
  messages report them.
\<close>

datatype message =
    EmptyInput
  | NoContent
  | ExpectedListItem
  | TabsInIndentation nat
  | IndentNotMultiple nat nat nat
  | BackslashAtEnd
  | InvalidEscape char
  | UnterminatedString
  | UnexpectedAfterQuote
  | MissingColon
  | UnterminatedQuotedKey
  | InvalidArrayLength string
  | CountMismatch int nat string
  | BlankLineInArray nat string
  | ExtraItems int string

datatype error =
    SyntaxError message
  | TypeError message
  | ReferenceError message
  | RangeError message

section \<open>Escaping (shared/string-utils.ts)\<close>

text \<open>\<^verbatim>\<open>s.replace(/c/g, r)\<close> for a single-character pattern.\<close>

definition replaceAll :: "char \<Rightarrow> string \<Rightarrow> string \<Rightarrow> string" where
  "replaceAll c r s = concat (map (\<lambda>x. if x = c then r else [x]) s)"

definition escapeString :: "string \<Rightarrow> string" where
  "escapeString v =
     replaceAll TAB [BACKSLASH, CHR ''t'']
       (replaceAll CARRIAGE_RETURN [BACKSLASH, CHR ''r'']
         (replaceAll NEWLINE [BACKSLASH, CHR ''n'']
           (replaceAll DOUBLE_QUOTE [BACKSLASH, DOUBLE_QUOTE]
             (replaceAll BACKSLASH [BACKSLASH, BACKSLASH] v))))"

text \<open>
  \<^verbatim>\<open>unescapeString\<close>: the \<^verbatim>\<open>while (i < value.length)\<close> loop, with the index
  \<open>i\<close> and the accumulated \<open>result\<close> as arguments.
\<close>

function unescape_loop :: "string \<Rightarrow> nat \<Rightarrow> string \<Rightarrow> error + string" where
  "unescape_loop v i result =
     (if i < length v then
        (if v ! i = BACKSLASH then
           (if i + 1 \<ge> length v then Inl (SyntaxError BackslashAtEnd)
            else
              (let nxt = v ! (i + 1) in
               if nxt = CHR ''n'' then unescape_loop v (i + 2) (result @ [NEWLINE])
               else if nxt = CHR ''t'' then unescape_loop v (i + 2) (result @ [TAB])
               else if nxt = CHR ''r'' then unescape_loop v (i + 2) (result @ [CARRIAGE_RETURN])
               else if nxt = BACKSLASH then unescape_loop v (i + 2) (result @ [BACKSLASH])
               else if nxt = DOUBLE_QUOTE then unescape_loop v (i + 2) (result @ [DOUBLE_QUOTE])
               else Inl (SyntaxError (InvalidEscape nxt))))
         else unescape_loop v (i + 1) (result @ [v ! i]))
      else Inr result)"
  by pat_completeness auto
termination
  by (relation "measure (\<lambda>(v, i, result). length v - i)") auto

declare unescape_loop.simps [simp del]

definition unescapeString :: "string \<Rightarrow> error + string" where
  "unescapeString v = unescape_loop v 0 []"

text \<open>
  \<^verbatim>\<open>findClosingQuote(content, start)\<close>: the index of the next unescaped double
  quote after \<open>start\<close>; \<open>None\<close> stands for the result \<open>-1\<close>.
\<close>

function findClosingQuote_loop :: "string \<Rightarrow> nat \<Rightarrow> nat option" where
  "findClosingQuote_loop content i =
     (if i < length content then
        (if content ! i = BACKSLASH \<and> i + 1 < length content
           then findClosingQuote_loop content (i + 2)
         else if content ! i = DOUBLE_QUOTE then Some i
         else findClosingQuote_loop content (i + 1))
      else None)"
  by pat_completeness auto
termination
  by (relation "measure (\<lambda>(content, i). length content - i)") auto

declare findClosingQuote_loop.simps [simp del]

definition findClosingQuote :: "string \<Rightarrow> nat \<Rightarrow> nat option" where
  "findClosingQuote content start = findClosingQuote_loop content (start + 1)"

text \<open>
  \<^verbatim>\<open>findUnquotedChar(content, char, start)\<close>: the index of the first \<open>char\<close>
  outside double-quoted runs, from \<open>start\<close> (0 when the caller leaves it out);
  \<open>None\<close> stands for \<open>-1\<close>.
\<close>

function findUnquotedChar_loop :: "string \<Rightarrow> char \<Rightarrow> bool \<Rightarrow> nat \<Rightarrow> nat option" where
  "findUnquotedChar_loop content ch inQuotes i =
     (if i < length content then
        (if content ! i = BACKSLASH \<and> i + 1 < length content \<and> inQuotes
           then findUnquotedChar_loop content ch inQuotes (i + 2)
         else if content ! i = DOUBLE_QUOTE
           then findUnquotedChar_loop content ch (\<not> inQuotes) (i + 1)
         else if content ! i = ch \<and> \<not> inQuotes then Some i
         else findUnquotedChar_loop content ch inQuotes (i + 1))
      else None)"
  by pat_completeness auto
termination
  by (relation "measure (\<lambda>(content, ch, inQuotes, i). length content - i)") auto

declare findUnquotedChar_loop.simps [simp del]

definition findUnquotedChar :: "string \<Rightarrow> char \<Rightarrow> nat \<Rightarrow> nat option" where
  "findUnquotedChar content ch start = findUnquotedChar_loop content ch False start"

section \<open>Escaping: the model in the words of the specification\<close>

text \<open>
  The escape alphabet of the specification, read left to right: a backslash followed by
  one of the five escape letters stands for one character; any other character stands
  for itself; a backslash followed by anything else, or by nothing, is an error.
\<close>

definition escape_of :: "char \<Rightarrow> char option" where
  "escape_of c =
     (if c = BACKSLASH then Some BACKSLASH
      else if c = DOUBLE_QUOTE then Some DOUBLE_QUOTE
      else if c = CHR ''n'' then Some NEWLINE
      else if c = CHR ''r'' then Some CARRIAGE_RETURN
      else if c = CHR ''t'' then Some TAB
      else None)"

fun spec_unescape :: "string \<Rightarrow> error + string" where
  "spec_unescape [] = Inr []"
| "spec_unescape (c # rest) =
     (if c = BACKSLASH then
        (case rest of
           [] \<Rightarrow> Inl (SyntaxError BackslashAtEnd)
         | x # rest' \<Rightarrow>
             (case escape_of x of
                None \<Rightarrow> Inl (SyntaxError (InvalidEscape x))
              | Some y \<Rightarrow> map_sum id ((#) y) (spec_unescape rest')))
      else map_sum id ((#) c) (spec_unescape rest))"

text \<open>
  A string has no unescaped special character when, read left to right, every backslash
  is followed by one of the five escape letters (and the pair is skipped), and no double
  quote, newline, carriage return or tab stands outside such a pair.
\<close>

fun no_unescaped_special :: "string \<Rightarrow> bool" where
  "no_unescaped_special [] = True"
| "no_unescaped_special [c] =
     (c \<noteq> BACKSLASH \<and> c \<noteq> DOUBLE_QUOTE \<and> c \<noteq> NEWLINE \<and> c \<noteq> CARRIAGE_RETURN \<and> c \<noteq> TAB)"
| "no_unescaped_special (c # d # rest) =
     (if c = BACKSLASH then escape_of d \<noteq> None \<and> no_unescaped_special rest
      else c \<noteq> DOUBLE_QUOTE \<and> c \<noteq> NEWLINE \<and> c \<noteq> CARRIAGE_RETURN \<and> c \<noteq> TAB \<and>
           no_unescaped_special (d # rest))"


text \<open>
  The five sequential \<^verbatim>\<open>replace\<close> calls of \<^verbatim>\<open>escapeString\<close> act on each
  character independently; \<open>esc_char\<close> is what one character becomes.
\<close>

definition esc_char :: "char \<Rightarrow> string" where
  "esc_char c =
     (if c = BACKSLASH then [BACKSLASH, BACKSLASH]
      else if c = DOUBLE_QUOTE then [BACKSLASH, DOUBLE_QUOTE]
      else if c = NEWLINE then [BACKSLASH, CHR ''n'']
      else if c = CARRIAGE_RETURN then [BACKSLASH, CHR ''r'']
      else if c = TAB then [BACKSLASH, CHR ''t'']
      else [c])"

section \<open>Values and numbers (types.ts)\<close>

text \<open>
  A JavaScript number is an IEEE-754 double. The model keeps the exact mathematical value
  of a finite number as a rational and the three non-finite values as constructors; the
  rounding of a decimal literal to the nearest double is not modelled, only whether the
  literal overflows to an infinity: a literal whose magnitude reaches
  \<open>2^1024 - 2^970\<close> (half an ulp above the largest double) rounds to an infinity.
\<close>

datatype number = Finite rat | PosInfinity | NegInfinity | NaN

definition DOUBLE_OVERFLOW :: rat where
  "DOUBLE_OVERFLOW = 2 ^ 1024 - 2 ^ 970"

definition to_double :: "rat \<Rightarrow> number" where
  "to_double q =
     (if q \<ge> DOUBLE_OVERFLOW then PosInfinity
      else if q \<le> - DOUBLE_OVERFLOW then NegInfinity
      else Finite q)"

definition negate :: "number \<Rightarrow> number" where
  "negate n = (case n of Finite q \<Rightarrow> Finite (- q) | PosInfinity \<Rightarrow> NegInfinity
                | NegInfinity \<Rightarrow> PosInfinity | NaN \<Rightarrow> NaN)"

definition isNaN :: "number \<Rightarrow> bool" where
  "isNaN n \<longleftrightarrow> n = NaN"

definition isFinite :: "number \<Rightarrow> bool" where
  "isFinite n \<longleftrightarrow> (case n of Finite q \<Rightarrow> True | _ \<Rightarrow> False)"

datatype JsonPrimitive = PNull | PBool bool | PNumber number | PString string

text \<open>
  \<open>Undefined\<close> is the JavaScript value \<^verbatim>\<open>undefined\<close>: it is no JSON value, but a
  tabular row with fewer values than fields stores it when the count check lets the row
  pass. An object is an ordered list of entries: the keys in insertion order, each key once.
  (JavaScript moves keys that are canonical array indices to the front; that reordering
  is a property of the host object, not of the decoder, and is not modelled.)
\<close>

datatype JsonValue =
    Primitive JsonPrimitive
  | JsonArray "JsonValue list"
  | JsonObject "(string \<times> JsonValue) list"
  | Undefined

text \<open>\<^verbatim>\<open>obj[key] = v\<close>: replace the value of an existing key in place, else append.\<close>

fun set_property :: "(string \<times> JsonValue) list \<Rightarrow> string \<Rightarrow> JsonValue \<Rightarrow> (string \<times> JsonValue) list" where
  "set_property [] k v = [(k, v)]"
| "set_property ((k', v') # obj) k v =
     (if k' = k then (k, v) # obj else (k', v') # set_property obj k v)"

datatype Delimiter = Delim_comma | Delim_tab | Delim_pipe

fun DELIMITERS :: "Delimiter \<Rightarrow> char" where
  "DELIMITERS Delim_comma = COMMA"
| "DELIMITERS Delim_tab = TAB"
| "DELIMITERS Delim_pipe = PIPE"

definition DEFAULT_DELIMITER :: Delimiter where
  "DEFAULT_DELIMITER = Delim_comma"

record ArrayHeaderInfo =
  key :: "string option"
  length_hdr :: int
  delimiter :: Delimiter
  fields_hdr :: "string list option"
  hasLengthMarker :: bool

record ParsedLine =
  raw :: string
  indent :: nat
  content :: string
  depth :: nat
  lineNumber :: nat

record BlankLineInfo =
  blank_lineNumber :: nat
  blank_indent :: nat
  blank_depth :: nat

record ResolvedDecodeOptions =
  opt_indent :: nat
  strict :: bool

section \<open>JavaScript built-ins used by the decoder\<close>

text \<open>
  \<^verbatim>\<open>indexOf(c, from)\<close> for a one-character search string: the first index at or after
  \<open>from\<close>, or \<open>-1\<close>. \<^verbatim>\<open>slice(a, b)\<close> with JavaScript's relative indices: a negative
  index counts from the end, and both are clamped to the string.
\<close>

fun indexOf_aux :: "char \<Rightarrow> string \<Rightarrow> nat \<Rightarrow> int" where
  "indexOf_aux c [] k = - 1"
| "indexOf_aux c (x # xs) k = (if x = c then int k else indexOf_aux c xs (Suc k))"

definition indexOf :: "string \<Rightarrow> char \<Rightarrow> int \<Rightarrow> int" where
  "indexOf s c pos = indexOf_aux c (drop (nat pos) s) (nat pos)"

definition relative_index :: "nat \<Rightarrow> int \<Rightarrow> int" where
  "relative_index len k = (if k < 0 then max (int len + k) 0 else min k (int len))"

definition slice :: "string \<Rightarrow> int \<Rightarrow> int \<Rightarrow> string" where
  "slice s a b =
     (let from = relative_index (length s) a; to = relative_index (length s) b
      in take (nat (to - from)) (drop (nat from) s))"

definition slice_from :: "string \<Rightarrow> int \<Rightarrow> string" where
  "slice_from s a = slice s a (int (length s))"

definition charCode :: "char \<Rightarrow> nat" where
  "charCode c = of_char c"

definition isDigit :: "char \<Rightarrow> bool" where
  "isDigit c \<longleftrightarrow> charCode (CHR ''0'') \<le> charCode c \<and> charCode c \<le> charCode (CHR ''9'')"

definition digit_val :: "char \<Rightarrow> nat" where
  "digit_val c = charCode c - charCode (CHR ''0'')"

definition digits_val :: "string \<Rightarrow> nat" where
  "digits_val ds = foldl (\<lambda>acc c. 10 * acc + digit_val c) 0 ds"

text \<open>
  \<^verbatim>\<open>Number.parseInt(s, 10)\<close>: leading white space is skipped, a sign is read, then the
  longest run of decimal digits; what follows the digits is ignored. No digit at all
  gives NaN, here \<open>None\<close>.
\<close>

definition parseInt10 :: "string \<Rightarrow> int option" where
  "parseInt10 s =
     (let t = trimStart s;
          neg = startsWith t ''-'';
          u = (if startsWith t ''-'' \<or> startsWith t ''+'' then tl t else t);
          ds = takeWhile isDigit u
      in if ds = [] then None
         else Some (if neg then - int (digits_val ds) else int (digits_val ds)))"

text \<open>
  The grammar \<^verbatim>\<open>StrDecimalLiteral\<close> of ECMAScript, read as the longest prefix that
  matches: an optional sign, then \<^verbatim>\<open>Infinity\<close>, or digits with an optional fraction,
  or a fraction starting with a dot, then an optional exponent part. The scanners return
  the value read and the rest of the string.
\<close>

definition scan_exponent :: "string \<Rightarrow> (int \<times> string) option" where
  "scan_exponent s =
     (case s of
        [] \<Rightarrow> None
      | e # r \<Rightarrow>
          if e = CHR ''e'' \<or> e = CHR ''E'' then
            (let neg = startsWith r ''-'';
                 u = (if startsWith r ''-'' \<or> startsWith r ''+'' then tl r else r);
                 ds = takeWhile isDigit u
             in if ds = [] then None
                else Some (if neg then - int (digits_val ds) else int (digits_val ds),
                           dropWhile isDigit u))
          else None)"

definition decimal_value :: "string \<Rightarrow> string \<Rightarrow> int \<Rightarrow> rat" where
  "decimal_value ip fp e =
     (let m = of_nat (digits_val (ip @ fp)); x = e - int (length fp)
      in if x \<ge> 0 then m * 10 ^ nat x else m / 10 ^ nat (- x))"

definition with_exponent :: "string \<Rightarrow> string \<Rightarrow> string \<Rightarrow> number \<times> string" where
  "with_exponent ip fp r =
     (case scan_exponent r of
        None \<Rightarrow> (to_double (decimal_value ip fp 0), r)
      | Some (e, r') \<Rightarrow> (to_double (decimal_value ip fp e), r'))"

definition scan_unsigned_decimal :: "string \<Rightarrow> (number \<times> string) option" where
  "scan_unsigned_decimal s =
     (if startsWith s ''Infinity'' then Some (PosInfinity, drop 8 s)
      else
        (let ip = takeWhile isDigit s; r1 = dropWhile isDigit s in
         if ip \<noteq> [] then
           (case r1 of
              [] \<Rightarrow> Some (with_exponent ip [] r1)
            | d # r2 \<Rightarrow>
                if d = CHR ''.'' then
                  Some (with_exponent ip (takeWhile isDigit r2) (dropWhile isDigit r2))
                else Some (with_exponent ip [] r1))
         else
           (case r1 of
              [] \<Rightarrow> None
            | d # r2 \<Rightarrow>
                if d = CHR ''.'' \<and> takeWhile isDigit r2 \<noteq> [] then
                  Some (with_exponent [] (takeWhile isDigit r2) (dropWhile isDigit r2))
                else None)))"

definition scan_decimal :: "string \<Rightarrow> (number \<times> string) option" where
  "scan_decimal s =
     (if startsWith s ''-'' then
        map_option (\<lambda>(n, r). (negate n, r)) (scan_unsigned_decimal (tl s))
      else if startsWith s ''+'' then scan_unsigned_decimal (tl s)
      else scan_unsigned_decimal s)"

text \<open>
  \<^verbatim>\<open>NonDecimalIntegerLiteral\<close>: \<^verbatim>\<open>0b\<close>, \<^verbatim>\<open>0o\<close> or \<^verbatim>\<open>0x\<close> (either case) and at
  least one digit of that radix, nothing else.
\<close>

definition radix_digit :: "nat \<Rightarrow> char \<Rightarrow> nat option" where
  "radix_digit b c =
     (let v = (if isDigit c then Some (digit_val c)
               else if charCode (CHR ''a'') \<le> charCode c \<and> charCode c \<le> charCode (CHR ''f'')
                 then Some (charCode c - charCode (CHR ''a'') + 10)
               else if charCode (CHR ''A'') \<le> charCode c \<and> charCode c \<le> charCode (CHR ''F'')
                 then Some (charCode c - charCode (CHR ''A'') + 10)
               else None)
      in case v of None \<Rightarrow> None | Some d \<Rightarrow> if d < b then Some d else None)"

definition non_decimal_literal :: "string \<Rightarrow> number option" where
  "non_decimal_literal s =
     (case s of
        z # p # ds \<Rightarrow>
          (let b = (if p = CHR ''b'' \<or> p = CHR ''B'' then 2
                    else if p = CHR ''o'' \<or> p = CHR ''O'' then 8
                    else if p = CHR ''x'' \<or> p = CHR ''X'' then 16 else (0::nat))
           in if z = CHR ''0'' \<and> b \<noteq> 0 \<and> ds \<noteq> [] \<and> list_all (\<lambda>c. radix_digit b c \<noteq> None) ds
              then Some (to_double (of_nat (foldl (\<lambda>acc c. b * acc + the (radix_digit b c)) 0 ds)))
              else None)
      | _ \<Rightarrow> None)"

text \<open>
  \<^verbatim>\<open>Number(s)\<close> on a string: white space is trimmed, the empty string is 0, and the
  whole rest must be one numeric literal. \<^verbatim>\<open>Number.parseFloat(s)\<close>: leading white
  space is skipped and the longest decimal-literal prefix is read.
\<close>

definition Number :: "string \<Rightarrow> number" where
  "Number s =
     (let t = trim s in
      if t = [] then Finite 0
      else
        (case non_decimal_literal t of
           Some n \<Rightarrow> n
         | None \<Rightarrow>
             (case scan_decimal t of
                Some (n, []) \<Rightarrow> n
              | _ \<Rightarrow> NaN)))"

definition parseFloat :: "string \<Rightarrow> number" where
  "parseFloat s = (case scan_decimal (trimStart s) of Some (n, r) \<Rightarrow> n | None \<Rightarrow> NaN)"

section \<open>Literal detection (shared/literal-utils.ts)\<close>

definition isBooleanOrNullLiteral :: "string \<Rightarrow> bool" where
  "isBooleanOrNullLiteral token \<longleftrightarrow>
     token = TRUE_LITERAL \<or> token = FALSE_LITERAL \<or> token = NULL_LITERAL"

definition isNumericLiteral :: "string \<Rightarrow> bool" where
  "isNumericLiteral token =
     (if token = [] then False
      else if length token > 1 \<and> token ! 0 = CHR ''0'' \<and> token ! 1 \<noteq> CHR ''.'' then False
      else (let num = Number token in \<not> isNaN num \<and> isFinite num))"

section \<open>The parser (decode/parser.ts)\<close>

subsection \<open>Primitive tokens and string literals\<close>

definition parseStringLiteral :: "string \<Rightarrow> error + string" where
  "parseStringLiteral token =
     (let trimmed = trim token in
      if startsWith trimmed [DOUBLE_QUOTE] then
        (case findClosingQuote trimmed 0 of
           None \<Rightarrow> Inl (SyntaxError UnterminatedString)
         | Some closingQuoteIndex \<Rightarrow>
             if closingQuoteIndex \<noteq> length trimmed - 1 then Inl (SyntaxError UnexpectedAfterQuote)
             else unescapeString (slice trimmed 1 (int closingQuoteIndex)))
      else Inr trimmed)"

definition parsePrimitiveToken :: "string \<Rightarrow> error + JsonPrimitive" where
  "parsePrimitiveToken token =
     (let trimmed = trim token in
      if trimmed = [] then Inr (PString [])
      else if startsWith trimmed [DOUBLE_QUOTE] then map_sum id PString (parseStringLiteral trimmed)
      else if isBooleanOrNullLiteral trimmed \<and> trimmed = TRUE_LITERAL then Inr (PBool True)
      else if isBooleanOrNullLiteral trimmed \<and> trimmed = FALSE_LITERAL then Inr (PBool False)
      else if isBooleanOrNullLiteral trimmed \<and> trimmed = NULL_LITERAL then Inr PNull
      else if isNumericLiteral trimmed then Inr (PNumber (parseFloat trimmed))
      else Inr (PString trimmed))"

text \<open>
  \<^verbatim>\<open>values.map(f)\<close> for an \<open>f\<close> that may throw: the elements are mapped in order and
  the first error aborts the whole map.
\<close>

fun map_throwing :: "('a \<Rightarrow> error + 'b) \<Rightarrow> 'a list \<Rightarrow> error + 'b list" where
  "map_throwing f [] = Inr []"
| "map_throwing f (x # xs) =
     (case f x of
        Inl e \<Rightarrow> Inl e
      | Inr y \<Rightarrow> (case map_throwing f xs of Inl e \<Rightarrow> Inl e | Inr ys \<Rightarrow> Inr (y # ys)))"

definition mapRowValuesToPrimitives :: "string list \<Rightarrow> error + JsonPrimitive list" where
  "mapRowValuesToPrimitives values' = map_throwing parsePrimitiveToken values'"

subsection \<open>Delimited values\<close>

text \<open>
  \<^verbatim>\<open>parseDelimitedValues\<close>: the \<^verbatim>\<open>while (i < input.length)\<close> loop with its four
  variables \<open>i\<close>, \<open>current\<close>, \<open>inQuotes\<close> and \<open>values\<close>, and the final push after it.
\<close>

function parseDelimitedValues_loop ::
  "string \<Rightarrow> char \<Rightarrow> nat \<Rightarrow> string \<Rightarrow> bool \<Rightarrow> string list \<Rightarrow> string list" where
  "parseDelimitedValues_loop input d i current inQuotes vals =
     (if i < length input then
        (let ch = input ! i in
         if ch = BACKSLASH \<and> i + 1 < length input \<and> inQuotes then
           parseDelimitedValues_loop input d (i + 2) (current @ [ch, input ! (i + 1)]) inQuotes vals
         else if ch = DOUBLE_QUOTE then
           parseDelimitedValues_loop input d (i + 1) (current @ [ch]) (\<not> inQuotes) vals
         else if ch = d \<and> \<not> inQuotes then
           parseDelimitedValues_loop input d (i + 1) [] inQuotes (vals @ [trim current])
         else
           parseDelimitedValues_loop input d (i + 1) (current @ [ch]) inQuotes vals)
      else
        (if current \<noteq> [] \<or> length vals > 0 then vals @ [trim current] else vals))"
  by pat_completeness auto
termination
  by (relation "measure (\<lambda>(input, d, i, current, inQuotes, vals). length input - i)") auto

declare parseDelimitedValues_loop.simps [simp del]

definition parseDelimitedValues :: "string \<Rightarrow> Delimiter \<Rightarrow> string list" where
  "parseDelimitedValues input delim =
     parseDelimitedValues_loop input (DELIMITERS delim) 0 [] False []"

subsection \<open>Keys\<close>

function parseUnquotedKey_loop :: "string \<Rightarrow> nat \<Rightarrow> nat" where
  "parseUnquotedKey_loop content' e =
     (if e < length content' \<and> content' ! e \<noteq> COLON
      then parseUnquotedKey_loop content' (e + 1) else e)"
  by pat_completeness auto
termination
  by (relation "measure (\<lambda>(content', e). length content' - e)") auto

declare parseUnquotedKey_loop.simps [simp del]

definition parseUnquotedKey :: "string \<Rightarrow> nat \<Rightarrow> error + (string \<times> nat)" where
  "parseUnquotedKey content' start =
     (let e = parseUnquotedKey_loop content' start in
      if e \<ge> length content' \<or> content' ! e \<noteq> COLON then Inl (SyntaxError MissingColon)
      else Inr (trim (slice content' (int start) (int e)), e + 1))"

definition parseQuotedKey :: "string \<Rightarrow> nat \<Rightarrow> error + (string \<times> nat)" where
  "parseQuotedKey content' start =
     (case findClosingQuote content' start of
        None \<Rightarrow> Inl (SyntaxError UnterminatedQuotedKey)
      | Some closingQuoteIndex \<Rightarrow>
          (case unescapeString (slice content' (int start + 1) (int closingQuoteIndex)) of
             Inl e \<Rightarrow> Inl e
           | Inr k \<Rightarrow>
               (let e = closingQuoteIndex + 1 in
                if e \<ge> length content' \<or> content' ! e \<noteq> COLON then Inl (SyntaxError MissingColon)
                else Inr (k, e + 1))))"

definition parseKeyToken :: "string \<Rightarrow> nat \<Rightarrow> error + (string \<times> nat)" where
  "parseKeyToken content' start =
     (if start < length content' \<and> content' ! start = DOUBLE_QUOTE
      then parseQuotedKey content' start
      else parseUnquotedKey content' start)"

subsection \<open>Array headers\<close>

text \<open>
  \<^verbatim>\<open>parseBracketSegment\<close> returns \<open>(length, delimiter, hasLengthMarker)\<close> or throws a
  \<^verbatim>\<open>TypeError\<close> when \<^verbatim>\<open>Number.parseInt\<close> yields NaN.
\<close>

definition parseBracketSegment :: "string \<Rightarrow> Delimiter \<Rightarrow> error + (int \<times> Delimiter \<times> bool)" where
  "parseBracketSegment seg defaultDelimiter =
     (let hasMarker = startsWith seg [HASH];
          c1 = (if hasMarker then slice_from seg 1 else seg);
          delim = (if endsWith c1 [TAB] then Delim_tab
                   else if endsWith c1 [PIPE] then Delim_pipe else defaultDelimiter);
          c2 = (if endsWith c1 [TAB] then slice c1 0 (- 1)
                else if endsWith c1 [PIPE] then slice c1 0 (- 1) else c1)
      in case parseInt10 c2 of
           None \<Rightarrow> Inl (TypeError (InvalidArrayLength seg))
         | Some len \<Rightarrow> Inr (len, delim, hasMarker))"

text \<open>
  \<^verbatim>\<open>parseArrayHeaderLine\<close> returns \<open>None\<close> where the source returns
  \<^verbatim>\<open>undefined\<close> (the line is not an array header), the header with the inline values
  (\<open>None\<close> when nothing follows the colon) otherwise. The error thrown by
  \<^verbatim>\<open>parseBracketSegment\<close> is caught and turned into \<open>None\<close>; an error thrown by
  \<^verbatim>\<open>parseStringLiteral\<close> on a field name is not caught.
\<close>

definition parseArrayHeaderLine ::
  "string \<Rightarrow> Delimiter \<Rightarrow> error + (ArrayHeaderInfo \<times> string option) option" where
  "parseArrayHeaderLine content' defaultDelimiter =
     (if startsWith (trimStart content') [DOUBLE_QUOTE] then Inr None
      else
        (let bracketStart = indexOf content' OPEN_BRACKET 0 in
         if bracketStart = - 1 then Inr None
         else
           (let bracketEnd = indexOf content' CLOSE_BRACKET bracketStart in
            if bracketEnd = - 1 then Inr None
            else
              (let braceStart = indexOf content' OPEN_BRACE bracketEnd;
                   braceEnd =
                     (if braceStart \<noteq> - 1 \<and> braceStart < indexOf content' COLON bracketEnd
                        \<and> indexOf content' CLOSE_BRACE braceStart \<noteq> - 1
                      then indexOf content' CLOSE_BRACE braceStart + 1
                      else bracketEnd + 1);
                   colonIndex = indexOf content' COLON (max bracketEnd braceEnd)
               in
               if colonIndex = - 1 then Inr None
               else
                 (let key' = (if bracketStart > 0 then Some (slice content' 0 bracketStart) else None);
                      afterColon = trim (slice_from content' (colonIndex + 1));
                      bracketContent = slice content' (bracketStart + 1) bracketEnd
                  in
                  case parseBracketSegment bracketContent defaultDelimiter of
                    Inl e \<Rightarrow> Inr None
                  | Inr (len, delim, hasMarker) \<Rightarrow>
                      (let foundBraceEnd = indexOf content' CLOSE_BRACE braceStart;
                           fields' =
                             (if braceStart \<noteq> - 1 \<and> braceStart < colonIndex
                                 \<and> foundBraceEnd \<noteq> - 1 \<and> foundBraceEnd < colonIndex
                              then map_sum id Some
                                     (map_throwing (\<lambda>field. parseStringLiteral (trim field))
                                        (parseDelimitedValues
                                           (slice content' (braceStart + 1) foundBraceEnd) delim))
                              else Inr None)
                       in
                       case fields' of
                         Inl e \<Rightarrow> Inl e
                       | Inr fs \<Rightarrow>
                           Inr (Some
                             (\<lparr> key = key', length_hdr = len, delimiter = delim,
                                 fields_hdr = fs, hasLengthMarker = hasMarker \<rparr>,
                              if afterColon = [] then None else Some afterColon))))))))"

subsection \<open>Array content detection helpers\<close>

definition isArrayHeaderAfterHyphen :: "string \<Rightarrow> bool" where
  "isArrayHeaderAfterHyphen content' \<longleftrightarrow>
     startsWith (trim content') [OPEN_BRACKET] \<and> findUnquotedChar content' COLON 0 \<noteq> None"

definition isObjectFirstFieldAfterHyphen :: "string \<Rightarrow> bool" where
  "isObjectFirstFieldAfterHyphen content' \<longleftrightarrow> findUnquotedChar content' COLON 0 \<noteq> None"

section \<open>Quote-aware splitting in the words of the specification\<close>

text \<open>
  The specification describes \<^verbatim>\<open>parseDelimitedValues\<close> as a left-to-right scan with
  one boolean \<open>inQuotes\<close>: a double quote flips it; inside quotes a backslash and the
  character after it are consumed together; the delimiter outside quotes ends a value.
  \<open>split_quoted d q cur s\<close> is that scan over the remaining input \<open>s\<close>, started in
  quote state \<open>q\<close> with the unfinished value \<open>cur\<close>; it returns the raw (untrimmed)
  values. \<open>in_quotes_after q s\<close> is the quote state the scan ends in.
\<close>

fun split_quoted :: "char \<Rightarrow> bool \<Rightarrow> string \<Rightarrow> string \<Rightarrow> string list" where
  "split_quoted d q cur [] = [cur]"
| "split_quoted d q cur [c] =
     (if c = DOUBLE_QUOTE then [cur @ [c]]
      else if c = d \<and> \<not> q then [cur, []]
      else [cur @ [c]])"
| "split_quoted d q cur (c # x # s) =
     (if c = BACKSLASH \<and> q then split_quoted d q (cur @ [c, x]) s
      else if c = DOUBLE_QUOTE then split_quoted d (\<not> q) (cur @ [c]) (x # s)
      else if c = d \<and> \<not> q then cur # split_quoted d q [] (x # s)
      else split_quoted d q (cur @ [c]) (x # s))"

fun in_quotes_after :: "bool \<Rightarrow> string \<Rightarrow> bool" where
  "in_quotes_after q [] = q"
| "in_quotes_after q [c] = (if c = DOUBLE_QUOTE then \<not> q else q)"
| "in_quotes_after q (c # x # s) =
     (if c = BACKSLASH \<and> q then in_quotes_after q s
      else if c = DOUBLE_QUOTE then in_quotes_after (\<not> q) (x # s)
      else in_quotes_after q (x # s))"

text \<open>\<^verbatim>\<open>parts.join(d)\<close>: the parts with the separator between them.\<close>

fun join :: "char \<Rightarrow> string list \<Rightarrow> string" where
  "join d [] = []"
| "join d [p] = p"
| "join d (p # p' # ps) = p @ d # join d (p' # ps)"

section \<open>Lexical validation (shared/validation.ts)\<close>

text \<open>
  The regular expressions of the source as deterministic matchers. In
  \<^verbatim>\<open>/^-?\d+(?:\.\d+)?(?:e[+-]?\d+)?$/i\<close> every optional group starts with a
  character that cannot continue the part before it, so the greedy left-to-right reading
  below decides the match. \<^verbatim>\<open>\d\<close> is an ASCII digit, \<^verbatim>\<open>\w\<close> an ASCII letter,
  digit or underscore.
\<close>

definition matches_number_regex :: "string \<Rightarrow> bool" where
  "matches_number_regex s \<longleftrightarrow>
     (let u = (if startsWith s ''-'' then tl s else s);
          ip = takeWhile isDigit u;
          r1 = dropWhile isDigit u;
          r2 = (case r1 of
                  [] \<Rightarrow> r1
                | d # r \<Rightarrow> if d = CHR ''.'' \<and> takeWhile isDigit r \<noteq> [] then dropWhile isDigit r else r1);
          r3 = (case scan_exponent r2 of None \<Rightarrow> r2 | Some (e, r') \<Rightarrow> r')
      in ip \<noteq> [] \<and> r3 = [])"

text \<open>The two optional groups of the number pattern, each as a function on the rest.\<close>

definition regex_tail :: "string \<Rightarrow> string" where
  "regex_tail r1 =
     (case r1 of [] \<Rightarrow> r1
      | d # r \<Rightarrow> if d = CHR ''.'' \<and> takeWhile isDigit r \<noteq> [] then dropWhile isDigit r else r1)"

definition after_exponent :: "string \<Rightarrow> string" where
  "after_exponent r = (case scan_exponent r of None \<Rightarrow> r | Some (e, r') \<Rightarrow> r')"

definition matches_leading_zero_regex :: "string \<Rightarrow> bool" where
  "matches_leading_zero_regex s \<longleftrightarrow>
     (case s of [] \<Rightarrow> False | z # ds \<Rightarrow> z = CHR ''0'' \<and> ds \<noteq> [] \<and> list_all isDigit ds)"






text \<open>
  The test of \<^verbatim>\<open>isNumericLiteral\<close> for a leading zero: a token of more than one
  character that starts with \<open>0\<close> and does not continue with a dot.
\<close>

definition hasLeadingZero :: "string \<Rightarrow> bool" where
  "hasLeadingZero token \<longleftrightarrow> length token > 1 \<and> token ! 0 = CHR ''0'' \<and> token ! 1 \<noteq> CHR ''.''"

section \<open>Primitive encoding (encode/primitives.ts)\<close>





section \<open>The line scanner (decode/scanner.ts)\<close>

text \<open>\<^verbatim>\<open>source.split('\n')\<close>: one more part than there are newlines.\<close>

fun split_lines :: "string \<Rightarrow> string list" where
  "split_lines [] = [[]]"
| "split_lines (c # s) =
     (if c = NEWLINE then [] # split_lines s
      else (case split_lines s of [] \<Rightarrow> [[c]] | l # ls \<Rightarrow> (c # l) # ls))"

text \<open>
  \<^verbatim>\<open>Math.floor(indentSpaces / indentSize)\<close>. The options give a positive integer
  \<open>indentSize\<close>; for 0 JavaScript yields Infinity or NaN, which \<^typ>\<open>nat\<close> does not
  hold, so statements about depths assume \<open>0 < indentSize\<close>.
\<close>

definition computeDepthFromIndent :: "nat \<Rightarrow> nat \<Rightarrow> nat" where
  "computeDepthFromIndent indentSpaces indentSize = indentSpaces div indentSize"

record ScanResult =
  scan_lines :: "ParsedLine list"
  scan_blankLines :: "BlankLineInfo list"

text \<open>
  The \<^verbatim>\<open>for\<close> loop of \<^verbatim>\<open>toParsedLines\<close> over the raw lines, with the index \<open>i\<close>
  and the two arrays built so far. A \<^verbatim>\<open>throw\<close> ends the scan with the error.
\<close>

fun toParsedLines_loop ::
  "string list \<Rightarrow> nat \<Rightarrow> nat \<Rightarrow> bool \<Rightarrow> ParsedLine list \<Rightarrow> BlankLineInfo list \<Rightarrow> error + ScanResult" where
  "toParsedLines_loop [] i indentSize strict' parsed blanks =
     Inr \<lparr> scan_lines = parsed, scan_blankLines = blanks \<rparr>"
| "toParsedLines_loop (raw' # rest) i indentSize strict' parsed blanks =
     (let lineNumber' = i + 1;
          indent' = length (takeWhile (\<lambda>c. c = SPACE) raw');
          content' = drop indent' raw'
      in
      if trim content' = [] then
        toParsedLines_loop rest (i + 1) indentSize strict' parsed
          (blanks @ [\<lparr> blank_lineNumber = lineNumber', blank_indent = indent',
                        blank_depth = computeDepthFromIndent indent' indentSize \<rparr>])
      else
        (let depth' = computeDepthFromIndent indent' indentSize;
             wsEnd = length (takeWhile (\<lambda>c. c = SPACE \<or> c = TAB) raw')
         in
         if strict' \<and> includes_char (take wsEnd raw') TAB then
           Inl (SyntaxError (TabsInIndentation lineNumber'))
         else if strict' \<and> indent' > 0 \<and> indent' mod indentSize \<noteq> 0 then
           Inl (SyntaxError (IndentNotMultiple lineNumber' indentSize indent'))
         else
           toParsedLines_loop rest (i + 1) indentSize strict'
             (parsed @ [\<lparr> raw = raw', indent = indent', content = content',
                           depth = depth', lineNumber = lineNumber' \<rparr>])
             blanks))"

definition toParsedLines :: "string \<Rightarrow> nat \<Rightarrow> bool \<Rightarrow> error + ScanResult" where
  "toParsedLines source indentSize strict' =
     (if trim source = [] then Inr \<lparr> scan_lines = [], scan_blankLines = [] \<rparr>
      else toParsedLines_loop (split_lines source) 0 indentSize strict' [] [])"

subsection \<open>The line cursor\<close>

record LineCursor =
  lines :: "ParsedLine list"
  index :: nat
  blankLines :: "BlankLineInfo list"

definition new_LineCursor :: "ParsedLine list \<Rightarrow> BlankLineInfo list \<Rightarrow> LineCursor" where
  "new_LineCursor ls bs = \<lparr> lines = ls, index = 0, blankLines = bs \<rparr>"

definition peek :: "LineCursor \<Rightarrow> ParsedLine option" where
  "peek c = (if index c < length (lines c) then Some (lines c ! index c) else None)"

definition advance :: "LineCursor \<Rightarrow> LineCursor" where
  "advance c = c \<lparr> index := index c + 1 \<rparr>"

definition current :: "LineCursor \<Rightarrow> ParsedLine option" where
  "current c =
     (if index c > 0 \<and> index c - 1 < length (lines c) then Some (lines c ! (index c - 1))
      else None)"

definition atEnd :: "LineCursor \<Rightarrow> bool" where
  "atEnd c \<longleftrightarrow> index c \<ge> length (lines c)"

definition cursor_length :: "LineCursor \<Rightarrow> nat" where
  "cursor_length c = length (lines c)"

definition peekAtDepth :: "LineCursor \<Rightarrow> nat \<Rightarrow> ParsedLine option" where
  "peekAtDepth c targetDepth =
     (case peek c of
        None \<Rightarrow> None
      | Some line \<Rightarrow> if depth line = targetDepth then Some line else None)"

subsection \<open>The decoder's validation helpers (decode/validation.ts)\<close>

text \<open>
  The four helpers \<^verbatim>\<open>assertExpectedCount\<close>, \<^verbatim>\<open>validateNoBlankLinesInRange\<close>,
  \<^verbatim>\<open>validateNoExtraListItems\<close> and \<^verbatim>\<open>validateNoExtraTabularRows\<close> are imported by
  the decoder from a file that is not among the sources. Each returns nothing or throws,
  and reads the cursor without moving it. They are parameters of the decoder: a
  \<open>validation\<close> gives, for each helper, the error it throws on its arguments, if any.
\<close>

record validation =
  assertExpectedCount :: "nat \<Rightarrow> int \<Rightarrow> string \<Rightarrow> ResolvedDecodeOptions \<Rightarrow> error option"
  validateNoBlankLinesInRange :: "nat \<Rightarrow> nat \<Rightarrow> BlankLineInfo list \<Rightarrow> bool \<Rightarrow> string \<Rightarrow> error option"
  validateNoExtraListItems :: "LineCursor \<Rightarrow> nat \<Rightarrow> int \<Rightarrow> error option"
  validateNoExtraTabularRows :: "LineCursor \<Rightarrow> nat \<Rightarrow> ArrayHeaderInfo \<Rightarrow> error option"

text \<open>
  Modelled from the spec: the four validation helpers, whose file is missing. "After
  reading a body, the decoder asserts that the exact declared count was produced. In
  strict mode it additionally checks that no further item lines at the same item/row
  depth follow; surplus items produce a syntax error." and "StrictBlankInArray: blank
  line between first and last item/row of an array".
\<close>

definition spec_validation :: validation where
  "spec_validation =
     \<lparr> assertExpectedCount = (\<lambda>actual expected itemType opts.
          if int actual \<noteq> expected then Some (RangeError (CountMismatch expected actual itemType))
          else None),
       validateNoBlankLinesInRange = (\<lambda>startLine endLine blanks strict' what.
          if strict' \<and> list_ex (\<lambda>b. startLine < blank_lineNumber b \<and> blank_lineNumber b < endLine) blanks
          then Some (SyntaxError (BlankLineInArray startLine what)) else None),
       validateNoExtraListItems = (\<lambda>c itemDepth expected.
          (case peek c of
             None \<Rightarrow> None
           | Some line \<Rightarrow>
               if depth line = itemDepth \<and> startsWith (content line) LIST_ITEM_PREFIX
               then Some (SyntaxError (ExtraItems expected ''list array items'')) else None)),
       validateNoExtraTabularRows = (\<lambda>c rowDepth header.
          (case peek c of
             None \<Rightarrow> None
           | Some line \<Rightarrow>
               if depth line = rowDepth
               then Some (SyntaxError (ExtraItems (length_hdr header) ''tabular rows'')) else None)) \<rparr>"

section \<open>The decoder (decode/decoders.ts)\<close>

text \<open>
  The decoding functions call each other recursively and move a shared cursor. In the
  model each takes the cursor and returns the result with the cursor it leaves behind;
  a \<^verbatim>\<open>throw\<close> is the value \<open>Inl e\<close>. The recursion is bounded by a fuel argument that
  every call decreases: \<open>None\<close> means that the fuel ran out before the call returned.
\<close>

type_synonym 'a result = "(error + 'a) option"

definition ok :: "'a \<Rightarrow> 'a result" where
  "ok x = Some (Inr x)"

definition throw :: "error \<Rightarrow> 'a result" where
  "throw e = Some (Inl e)"

definition bind_result :: "'a result \<Rightarrow> ('a \<Rightarrow> 'b result) \<Rightarrow> 'b result" where
  "bind_result m f = (case m of None \<Rightarrow> None | Some (Inl e) \<Rightarrow> Some (Inl e) | Some (Inr x) \<Rightarrow> f x)"

definition check :: "error option \<Rightarrow> unit result" where
  "check v = (case v of None \<Rightarrow> ok () | Some e \<Rightarrow> throw e)"

definition isKeyValueLine :: "ParsedLine \<Rightarrow> bool" where
  "isKeyValueLine line =
     (let content' = content line in
      if startsWith content' [DOUBLE_QUOTE] then
        (case findClosingQuote content' 0 of
           None \<Rightarrow> False
         | Some closingQuoteIndex \<Rightarrow>
             closingQuoteIndex + 1 < length content' \<and> content' ! (closingQuoteIndex + 1) = COLON)
      else includes_char content' COLON)"

definition decodeInlinePrimitiveArray ::
  "validation \<Rightarrow> ArrayHeaderInfo \<Rightarrow> string \<Rightarrow> ResolvedDecodeOptions \<Rightarrow> error + JsonValue list" where
  "decodeInlinePrimitiveArray V header inlineValues opts =
     (if trim inlineValues = [] then
        (case assertExpectedCount V 0 (length_hdr header) ''inline array items'' opts of
           Some e \<Rightarrow> Inl e
         | None \<Rightarrow> Inr [])
      else
        (case mapRowValuesToPrimitives (parseDelimitedValues inlineValues (delimiter header)) of
           Inl e \<Rightarrow> Inl e
         | Inr primitives \<Rightarrow>
             (case assertExpectedCount V (length primitives) (length_hdr header)
                     ''inline array items'' opts of
                Some e \<Rightarrow> Inl e
              | None \<Rightarrow> Inr (map Primitive primitives))))"

text \<open>
  One row of a tabular array as an object: \<^verbatim>\<open>obj[fields[i]] = primitives[i]\<close> for each
  field index; a read past the end of \<open>primitives\<close> gives \<^verbatim>\<open>undefined\<close>.
\<close>

fun row_object ::
  "string list \<Rightarrow> JsonPrimitive list \<Rightarrow> nat \<Rightarrow> (string \<times> JsonValue) list \<Rightarrow> (string \<times> JsonValue) list" where
  "row_object [] primitives i obj = obj"
| "row_object (f # fs) primitives i obj =
     row_object fs primitives (i + 1)
       (set_property obj f
          (if i < length primitives then Primitive (primitives ! i) else Undefined))"

text \<open>
  The \<^verbatim>\<open>while\<close> loop of \<^verbatim>\<open>decodeTabularArray\<close>: it calls no other decoding
  function and advances the cursor in every iteration. It returns the objects, the first
  and last row line numbers and the cursor.
\<close>

function decodeTabularArray_loop ::
  "validation \<Rightarrow> ArrayHeaderInfo \<Rightarrow> LineCursor \<Rightarrow> nat \<Rightarrow> ResolvedDecodeOptions \<Rightarrow>
   JsonValue list \<Rightarrow> nat option \<Rightarrow> nat option \<Rightarrow>
   error + (JsonValue list \<times> nat option \<times> nat option \<times> LineCursor)" where
  "decodeTabularArray_loop V header c rowDepth opts objects startLine endLine =
     (if \<not> atEnd c \<and> int (length objects) < length_hdr header then
        (case peek c of
           None \<Rightarrow> Inr (objects, startLine, endLine, c)
         | Some line \<Rightarrow>
             if depth line < rowDepth then Inr (objects, startLine, endLine, c)
             else if depth line = rowDepth then
               (let startLine' = (if startLine = None then Some (lineNumber line) else startLine);
                    endLine' = Some (lineNumber line);
                    c' = advance c;
                    vals = parseDelimitedValues (content line) (delimiter header)
                in
                case assertExpectedCount V (length vals) (int (length (the (fields_hdr header))))
                        ''tabular row values'' opts of
                  Some e \<Rightarrow> Inl e
                | None \<Rightarrow>
                    (case mapRowValuesToPrimitives vals of
                       Inl e \<Rightarrow> Inl e
                     | Inr primitives \<Rightarrow>
                         decodeTabularArray_loop V header c' rowDepth opts
                           (objects @ [JsonObject (row_object (the (fields_hdr header)) primitives 0 [])])
                           startLine' endLine'))
             else Inr (objects, startLine, endLine, c))
      else Inr (objects, startLine, endLine, c))"
  by pat_completeness auto
termination
  by (relation "measure (\<lambda>(V, header, c, rest). length (lines c) - index c)")
    (auto simp: atEnd_def advance_def)

declare decodeTabularArray_loop.simps [simp del]

definition decodeTabularArray ::
  "validation \<Rightarrow> ArrayHeaderInfo \<Rightarrow> LineCursor \<Rightarrow> nat \<Rightarrow> ResolvedDecodeOptions \<Rightarrow>
   error + (JsonValue list \<times> LineCursor)" where
  "decodeTabularArray V header c baseDepth opts =
     (let rowDepth = baseDepth + 1 in
      case decodeTabularArray_loop V header c rowDepth opts [] None None of
        Inl e \<Rightarrow> Inl e
      | Inr (objects, startLine, endLine, c') \<Rightarrow>
          (case assertExpectedCount V (length objects) (length_hdr header) ''tabular rows'' opts of
             Some e \<Rightarrow> Inl e
           | None \<Rightarrow>
               (case (if strict opts \<and> startLine \<noteq> None \<and> endLine \<noteq> None
                      then validateNoBlankLinesInRange V (the startLine) (the endLine)
                             (blankLines c') (strict opts) ''tabular array''
                      else None) of
                  Some e \<Rightarrow> Inl e
                | None \<Rightarrow>
                    (case (if strict opts then validateNoExtraTabularRows V c' rowDepth header
                           else None) of
                       Some e \<Rightarrow> Inl e
                     | None \<Rightarrow> Inr (objects, c')))))"

text \<open>
  The remaining decoding functions are mutually recursive. Each is first written with
  the functions it calls as parameters (the name of the source function with the suffix
  \<open>_with\<close>, or \<open>_step\<close> for the body of a \<^verbatim>\<open>while\<close> loop, whose parameter \<open>self\<close>
  is the rest of the loop); the recursion is closed below, on the fuel.
  \<open>decodeKeyValue\<close> returns the key, the value, \<open>followDepth\<close> and the cursor.
\<close>

type_synonym object = "(string \<times> JsonValue) list"
type_synonym decodeKeyValue_t =
  "string \<Rightarrow> LineCursor \<Rightarrow> nat \<Rightarrow> ResolvedDecodeOptions \<Rightarrow> (string \<times> JsonValue \<times> nat \<times> LineCursor) result"
type_synonym decodeKeyValuePair_t =
  "ParsedLine \<Rightarrow> LineCursor \<Rightarrow> nat \<Rightarrow> ResolvedDecodeOptions \<Rightarrow> (string \<times> JsonValue \<times> LineCursor) result"
type_synonym decodeObject_t =
  "LineCursor \<Rightarrow> nat \<Rightarrow> ResolvedDecodeOptions \<Rightarrow> (object \<times> LineCursor) result"
type_synonym decodeArrayFromHeader_t =
  "ArrayHeaderInfo \<Rightarrow> string option \<Rightarrow> LineCursor \<Rightarrow> nat \<Rightarrow> ResolvedDecodeOptions \<Rightarrow>
   (JsonValue list \<times> LineCursor) result"
type_synonym decodeListArray_t =
  "ArrayHeaderInfo \<Rightarrow> LineCursor \<Rightarrow> nat \<Rightarrow> ResolvedDecodeOptions \<Rightarrow> (JsonValue list \<times> LineCursor) result"
type_synonym decodeListItem_t =
  "LineCursor \<Rightarrow> nat \<Rightarrow> Delimiter \<Rightarrow> ResolvedDecodeOptions \<Rightarrow> (JsonValue \<times> LineCursor) result"

definition decodeObject_step ::
  "decodeKeyValuePair_t \<Rightarrow> (LineCursor \<Rightarrow> object \<Rightarrow> (object \<times> LineCursor) result) \<Rightarrow>
   LineCursor \<Rightarrow> nat \<Rightarrow> ResolvedDecodeOptions \<Rightarrow> object \<Rightarrow> (object \<times> LineCursor) result" where
  "decodeObject_step decodeKeyValuePair' self c baseDepth opts obj =
     (if \<not> atEnd c then
        (case peek c of
           None \<Rightarrow> ok (obj, c)
         | Some line \<Rightarrow>
             if depth line < baseDepth then ok (obj, c)
             else if depth line = baseDepth then
               bind_result (decodeKeyValuePair' line c baseDepth opts)
                 (\<lambda>(k, v, c'). self c' (set_property obj k v))
             else ok (obj, c))
      else ok (obj, c))"

definition decodeKeyValue_with ::
  "decodeArrayFromHeader_t \<Rightarrow> decodeObject_t \<Rightarrow> decodeKeyValue_t" where
  "decodeKeyValue_with decodeArrayFromHeader' decodeObject' content' c baseDepth opts =
     (case parseArrayHeaderLine content' DEFAULT_DELIMITER of
        Inl e \<Rightarrow> throw e
      | Inr arrayHeader \<Rightarrow>
          (case (case arrayHeader of
                   None \<Rightarrow> None
                 | Some (header, inlineValues) \<Rightarrow>
                     (case key header of
                        None \<Rightarrow> None
                      | Some k \<Rightarrow> if k = [] then None else Some (header, inlineValues, k))) of
             Some (header, inlineValues, k) \<Rightarrow>
               bind_result (decodeArrayFromHeader' header inlineValues c baseDepth opts)
                 (\<lambda>(items, c'). ok (k, JsonArray items, baseDepth + 1, c'))
           | None \<Rightarrow>
               (case parseKeyToken content' 0 of
                  Inl e \<Rightarrow> throw e
                | Inr (k, e) \<Rightarrow>
                    (let rest = trim (slice_from content' (int e)) in
                     if rest = [] then
                       (case peek c of
                          Some nextLine \<Rightarrow>
                            if depth nextLine > baseDepth then
                              bind_result (decodeObject' c (baseDepth + 1) opts)
                                (\<lambda>(nested, c'). ok (k, JsonObject nested, baseDepth + 1, c'))
                            else ok (k, JsonObject [], baseDepth + 1, c)
                        | None \<Rightarrow> ok (k, JsonObject [], baseDepth + 1, c))
                     else
                       (case parsePrimitiveToken rest of
                          Inl e \<Rightarrow> throw e
                        | Inr v \<Rightarrow> ok (k, Primitive v, baseDepth + 1, c))))))"

definition decodeKeyValuePair_with :: "decodeKeyValue_t \<Rightarrow> decodeKeyValuePair_t" where
  "decodeKeyValuePair_with decodeKeyValue' line c baseDepth opts =
     bind_result (decodeKeyValue' (content line) (advance c) baseDepth opts)
       (\<lambda>(k, v, followDepth, c'). ok (k, v, c'))"

definition decodeArrayFromHeader_with :: "validation \<Rightarrow> decodeListArray_t \<Rightarrow> decodeArrayFromHeader_t" where
  "decodeArrayFromHeader_with V decodeListArray' header inlineValues c baseDepth opts =
     (if inlineValues \<noteq> None \<and> inlineValues \<noteq> Some [] then
        (case decodeInlinePrimitiveArray V header (the inlineValues) opts of
           Inl e \<Rightarrow> throw e
         | Inr items \<Rightarrow> ok (items, c))
      else if fields_hdr header \<noteq> None \<and> length (the (fields_hdr header)) > 0 then
        Some (decodeTabularArray V header c baseDepth opts)
      else decodeListArray' header c baseDepth opts)"

definition decodeListArray_step ::
  "decodeListItem_t \<Rightarrow>
   (LineCursor \<Rightarrow> JsonValue list \<Rightarrow> nat option \<Rightarrow> nat option \<Rightarrow>
      (JsonValue list \<times> nat option \<times> nat option \<times> LineCursor) result) \<Rightarrow>
   ArrayHeaderInfo \<Rightarrow> LineCursor \<Rightarrow> nat \<Rightarrow> ResolvedDecodeOptions \<Rightarrow>
   JsonValue list \<Rightarrow> nat option \<Rightarrow> nat option \<Rightarrow>
   (JsonValue list \<times> nat option \<times> nat option \<times> LineCursor) result" where
  "decodeListArray_step decodeListItem' self header c itemDepth opts items startLine endLine =
     (if \<not> atEnd c \<and> int (length items) < length_hdr header then
        (case peek c of
           None \<Rightarrow> ok (items, startLine, endLine, c)
         | Some line \<Rightarrow>
             if depth line < itemDepth then ok (items, startLine, endLine, c)
             else if depth line = itemDepth \<and> startsWith (content line) LIST_ITEM_PREFIX then
               (let startLine' = (if startLine = None then Some (lineNumber line) else startLine) in
                bind_result (decodeListItem' c itemDepth (delimiter header) opts)
                  (\<lambda>(item, c').
                     self c' (items @ [item]) startLine'
                       (case current c' of
                          Some currentLine \<Rightarrow> Some (lineNumber currentLine)
                        | None \<Rightarrow> Some (lineNumber line))))
             else ok (items, startLine, endLine, c))
      else ok (items, startLine, endLine, c))"

definition decodeListArray_with ::
  "validation \<Rightarrow>
   (ArrayHeaderInfo \<Rightarrow> LineCursor \<Rightarrow> nat \<Rightarrow> ResolvedDecodeOptions \<Rightarrow>
      JsonValue list \<Rightarrow> nat option \<Rightarrow> nat option \<Rightarrow>
      (JsonValue list \<times> nat option \<times> nat option \<times> LineCursor) result) \<Rightarrow>
   decodeListArray_t" where
  "decodeListArray_with V loop header c baseDepth opts =
     (let itemDepth = baseDepth + 1 in
      bind_result (loop header c itemDepth opts [] None None)
        (\<lambda>(items, startLine, endLine, c').
           bind_result
             (check (assertExpectedCount V (length items) (length_hdr header)
                       ''list array items'' opts))
             (\<lambda>_. bind_result
                (check (if strict opts \<and> startLine \<noteq> None \<and> endLine \<noteq> None
                        then validateNoBlankLinesInRange V (the startLine) (the endLine)
                               (blankLines c') (strict opts) ''list array''
                        else None))
                (\<lambda>_. bind_result
                   (check (if strict opts
                           then validateNoExtraListItems V c' itemDepth (length_hdr header)
                           else None))
                   (\<lambda>_. ok (items, c'))))))"

definition decodeObjectFromListItem_step ::
  "decodeKeyValuePair_t \<Rightarrow> (LineCursor \<Rightarrow> object \<Rightarrow> (object \<times> LineCursor) result) \<Rightarrow>
   LineCursor \<Rightarrow> nat \<Rightarrow> ResolvedDecodeOptions \<Rightarrow> object \<Rightarrow> (object \<times> LineCursor) result" where
  "decodeObjectFromListItem_step decodeKeyValuePair' self c followDepth opts obj =
     (if \<not> atEnd c then
        (case peek c of
           None \<Rightarrow> ok (obj, c)
         | Some line \<Rightarrow>
             if depth line < followDepth then ok (obj, c)
             else if depth line = followDepth \<and> \<not> startsWith (content line) LIST_ITEM_PREFIX then
               bind_result (decodeKeyValuePair' line c followDepth opts)
                 (\<lambda>(k, v, c'). self c' (set_property obj k v))
             else ok (obj, c))
      else ok (obj, c))"

definition decodeObjectFromListItem_with ::
  "decodeKeyValue_t \<Rightarrow>
   (LineCursor \<Rightarrow> nat \<Rightarrow> ResolvedDecodeOptions \<Rightarrow> object \<Rightarrow> (object \<times> LineCursor) result) \<Rightarrow>
   ParsedLine \<Rightarrow> LineCursor \<Rightarrow> nat \<Rightarrow> ResolvedDecodeOptions \<Rightarrow> (object \<times> LineCursor) result" where
  "decodeObjectFromListItem_with decodeKeyValue' loop firstLine c baseDepth opts =
     (let afterHyphen = slice_from (content firstLine) (int (length LIST_ITEM_PREFIX)) in
      bind_result (decodeKeyValue' afterHyphen c baseDepth opts)
        (\<lambda>(k, v, followDepth, c'). loop c' followDepth opts [(k, v)]))"

definition decodeListItem_with ::
  "decodeArrayFromHeader_t \<Rightarrow>
   (ParsedLine \<Rightarrow> LineCursor \<Rightarrow> nat \<Rightarrow> ResolvedDecodeOptions \<Rightarrow> (object \<times> LineCursor) result) \<Rightarrow>
   decodeListItem_t" where
  "decodeListItem_with decodeArrayFromHeader' decodeObjectFromListItem' c baseDepth activeDelimiter opts =
     (case peek c of
        None \<Rightarrow> throw (ReferenceError ExpectedListItem)
      | Some line \<Rightarrow>
          (let c1 = advance c;
               afterHyphen = slice_from (content line) (int (length LIST_ITEM_PREFIX))
           in
           case (if isArrayHeaderAfterHyphen afterHyphen
                 then parseArrayHeaderLine afterHyphen DEFAULT_DELIMITER else Inr None) of
             Inl e \<Rightarrow> throw e
           | Inr (Some (header, inlineValues)) \<Rightarrow>
               bind_result (decodeArrayFromHeader' header inlineValues c1 baseDepth opts)
                 (\<lambda>(items, c'). ok (JsonArray items, c'))
           | Inr None \<Rightarrow>
               if isObjectFirstFieldAfterHyphen afterHyphen then
                 bind_result (decodeObjectFromListItem' line c1 baseDepth opts)
                   (\<lambda>(obj, c'). ok (JsonObject obj, c'))
               else
                 (case parsePrimitiveToken afterHyphen of
                    Inl e \<Rightarrow> throw e
                  | Inr v \<Rightarrow> ok (Primitive v, c1))))"

text \<open>
  The recursion, closed on the fuel. \<open>decoders_at V n\<close> holds the six recursive functions
  with fuel \<open>n\<close>: with no fuel a call does not return (\<open>None\<close>); with fuel \<open>Suc n\<close> it
  runs its body, and the calls in the body use \<open>d\<close>, the functions with fuel \<open>n\<close>.
\<close>

record decoders =
  objectLoop_of ::
    "LineCursor \<Rightarrow> nat \<Rightarrow> ResolvedDecodeOptions \<Rightarrow> object \<Rightarrow> (object \<times> LineCursor) result"
  keyValue_of :: decodeKeyValue_t
  arrayFromHeader_of :: decodeArrayFromHeader_t
  listArrayLoop_of ::
    "ArrayHeaderInfo \<Rightarrow> LineCursor \<Rightarrow> nat \<Rightarrow> ResolvedDecodeOptions \<Rightarrow>
     JsonValue list \<Rightarrow> nat option \<Rightarrow> nat option \<Rightarrow>
     (JsonValue list \<times> nat option \<times> nat option \<times> LineCursor) result"
  listItem_of :: decodeListItem_t
  objectFromListItemLoop_of ::
    "LineCursor \<Rightarrow> nat \<Rightarrow> ResolvedDecodeOptions \<Rightarrow> object \<Rightarrow> (object \<times> LineCursor) result"

primrec decoders_at :: "validation \<Rightarrow> nat \<Rightarrow> decoders" where
  "decoders_at V 0 =
     \<lparr> objectLoop_of = (\<lambda>c baseDepth opts obj. None),
       keyValue_of = (\<lambda>content' c baseDepth opts. None),
       arrayFromHeader_of = (\<lambda>header inlineValues c baseDepth opts. None),
       listArrayLoop_of = (\<lambda>header c itemDepth opts items startLine endLine. None),
       listItem_of = (\<lambda>c baseDepth activeDelimiter opts. None),
       objectFromListItemLoop_of = (\<lambda>c followDepth opts obj. None) \<rparr>"
| "decoders_at V (Suc n) =
     (let d = decoders_at V n in
     \<lparr> objectLoop_of = (\<lambda>c baseDepth opts obj.
         decodeObject_step (decodeKeyValuePair_with (keyValue_of d))
           (\<lambda>c' obj'. objectLoop_of d c' baseDepth opts obj') c baseDepth opts obj),
       keyValue_of = (\<lambda>content' c baseDepth opts.
         decodeKeyValue_with (arrayFromHeader_of d)
           (\<lambda>c' d' o'. objectLoop_of d c' d' o' []) content' c baseDepth opts),
       arrayFromHeader_of = (\<lambda>header inlineValues c baseDepth opts.
         decodeArrayFromHeader_with V (decodeListArray_with V (listArrayLoop_of d))
           header inlineValues c baseDepth opts),
       listArrayLoop_of = (\<lambda>header c itemDepth opts items startLine endLine.
         decodeListArray_step (listItem_of d)
           (\<lambda>c' items' s e. listArrayLoop_of d header c' itemDepth opts items' s e)
           header c itemDepth opts items startLine endLine),
       listItem_of = (\<lambda>c baseDepth activeDelimiter opts.
         decodeListItem_with (arrayFromHeader_of d)
           (decodeObjectFromListItem_with (keyValue_of d)
              (objectFromListItemLoop_of d))
           c baseDepth activeDelimiter opts),
       objectFromListItemLoop_of = (\<lambda>c followDepth opts obj.
         decodeObjectFromListItem_step (decodeKeyValuePair_with (keyValue_of d))
           (\<lambda>c' obj'. objectFromListItemLoop_of d c' followDepth opts obj')
           c followDepth opts obj) \<rparr>)"

text \<open>The source functions, by their own names, with the fuel as second argument.\<close>

definition decodeObject_loop ::
  "validation \<Rightarrow> nat \<Rightarrow> LineCursor \<Rightarrow> nat \<Rightarrow> ResolvedDecodeOptions \<Rightarrow> object \<Rightarrow>
   (object \<times> LineCursor) result" where
  "decodeObject_loop V n = objectLoop_of (decoders_at V n)"

definition decodeKeyValue :: "validation \<Rightarrow> nat \<Rightarrow> decodeKeyValue_t" where
  "decodeKeyValue V n = keyValue_of (decoders_at V n)"

definition decodeArrayFromHeader :: "validation \<Rightarrow> nat \<Rightarrow> decodeArrayFromHeader_t" where
  "decodeArrayFromHeader V n = arrayFromHeader_of (decoders_at V n)"

definition decodeListArray_loop ::
  "validation \<Rightarrow> nat \<Rightarrow> ArrayHeaderInfo \<Rightarrow> LineCursor \<Rightarrow> nat \<Rightarrow> ResolvedDecodeOptions \<Rightarrow>
   JsonValue list \<Rightarrow> nat option \<Rightarrow> nat option \<Rightarrow>
   (JsonValue list \<times> nat option \<times> nat option \<times> LineCursor) result" where
  "decodeListArray_loop V n = listArrayLoop_of (decoders_at V n)"

definition decodeListItem :: "validation \<Rightarrow> nat \<Rightarrow> decodeListItem_t" where
  "decodeListItem V n = listItem_of (decoders_at V n)"

definition decodeObjectFromListItem_loop ::
  "validation \<Rightarrow> nat \<Rightarrow> LineCursor \<Rightarrow> nat \<Rightarrow> ResolvedDecodeOptions \<Rightarrow> object \<Rightarrow>
   (object \<times> LineCursor) result" where
  "decodeObjectFromListItem_loop V n = objectFromListItemLoop_of (decoders_at V n)"

definition decodeObject :: "validation \<Rightarrow> nat \<Rightarrow> decodeObject_t" where
  "decodeObject V n c baseDepth opts = decodeObject_loop V n c baseDepth opts []"

definition decodeKeyValuePair :: "validation \<Rightarrow> nat \<Rightarrow> decodeKeyValuePair_t" where
  "decodeKeyValuePair V n = decodeKeyValuePair_with (decodeKeyValue V n)"

definition decodeListArray :: "validation \<Rightarrow> nat \<Rightarrow> decodeListArray_t" where
  "decodeListArray V n = decodeListArray_with V (decodeListArray_loop V n)"

definition decodeObjectFromListItem ::
  "validation \<Rightarrow> nat \<Rightarrow> ParsedLine \<Rightarrow> LineCursor \<Rightarrow> nat \<Rightarrow> ResolvedDecodeOptions \<Rightarrow>
   (object \<times> LineCursor) result" where
  "decodeObjectFromListItem V n =
     decodeObjectFromListItem_with (decodeKeyValue V n) (decodeObjectFromListItem_loop V n)"

text \<open>
  \<^verbatim>\<open>decodeValueFromLines\<close> and the entry point \<^verbatim>\<open>decode\<close> (index.ts). Every
  chain of nested calls consumes a line within four calls, so the fuel given by
  \<open>decode\<close> grows with the number of lines.
\<close>

definition decodeValueFromLines ::
  "validation \<Rightarrow> nat \<Rightarrow> LineCursor \<Rightarrow> ResolvedDecodeOptions \<Rightarrow> JsonValue result" where
  "decodeValueFromLines V n c opts =
     (case peek c of
        None \<Rightarrow> throw (ReferenceError NoContent)
      | Some first \<Rightarrow>
          (case (if isArrayHeaderAfterHyphen (content first)
                 then parseArrayHeaderLine (content first) DEFAULT_DELIMITER else Inr None) of
             Inl e \<Rightarrow> throw e
           | Inr (Some (header, inlineValues)) \<Rightarrow>
               bind_result (decodeArrayFromHeader V n header inlineValues (advance c) 0 opts)
                 (\<lambda>(items, c'). ok (JsonArray items))
           | Inr None \<Rightarrow>
               if cursor_length c = 1 \<and> \<not> isKeyValueLine first then
                 (case parsePrimitiveToken (trim (content first)) of
                    Inl e \<Rightarrow> throw e
                  | Inr v \<Rightarrow> ok (Primitive v))
               else
                 bind_result (decodeObject V n c 0 opts) (\<lambda>(obj, c'). ok (JsonObject obj))))"

definition decode_fuel :: "ParsedLine list \<Rightarrow> nat" where
  "decode_fuel ls = 8 * length ls + 8"

definition decode :: "validation \<Rightarrow> string \<Rightarrow> ResolvedDecodeOptions \<Rightarrow> JsonValue result" where
  "decode V input opts =
     (case toParsedLines input (opt_indent opts) (strict opts) of
        Inl e \<Rightarrow> throw e
      | Inr scanResult \<Rightarrow>
          if length (scan_lines scanResult) = 0 then throw (TypeError EmptyInput)
          else decodeValueFromLines V (decode_fuel (scan_lines scanResult))
                 (new_LineCursor (scan_lines scanResult) (scan_blankLines scanResult)) opts)"

section \<open>The line scanner, line by line\<close>

text \<open>
  What \<^verbatim>\<open>toParsedLines\<close> computes for one raw line: the indent (leading spaces), the
  content after it, whether the line is blank (its content is white space only), whether
  a tab stands in its leading white space, the parsed line it becomes and the blank-line
  record it leaves. A line \<open>offends\<close> the strict rules when it is not blank and has a
  tab in its leading white space or a positive indent that is no multiple of the indent
  size; \<open>strict_error\<close> is the error raised for it.
\<close>

definition line_indent :: "string \<Rightarrow> nat" where
  "line_indent raw' = length (takeWhile (\<lambda>c. c = SPACE) raw')"

definition line_content :: "string \<Rightarrow> string" where
  "line_content raw' = drop (line_indent raw') raw'"

definition is_blank_line :: "string \<Rightarrow> bool" where
  "is_blank_line raw' \<longleftrightarrow> trim (line_content raw') = []"

definition tab_in_indentation :: "string \<Rightarrow> bool" where
  "tab_in_indentation raw' \<longleftrightarrow>
     includes_char (take (length (takeWhile (\<lambda>c. c = SPACE \<or> c = TAB) raw')) raw') TAB"

definition offends :: "nat \<Rightarrow> string \<Rightarrow> bool" where
  "offends indentSize raw' \<longleftrightarrow>
     \<not> is_blank_line raw' \<and>
     (tab_in_indentation raw' \<or> (line_indent raw' > 0 \<and> line_indent raw' mod indentSize \<noteq> 0))"

definition strict_error :: "nat \<Rightarrow> nat \<Rightarrow> string \<Rightarrow> error" where
  "strict_error indentSize i raw' =
     (if tab_in_indentation raw' then SyntaxError (TabsInIndentation (i + 1))
      else SyntaxError (IndentNotMultiple (i + 1) indentSize (line_indent raw')))"

definition parsed_line :: "nat \<Rightarrow> nat \<times> string \<Rightarrow> ParsedLine" where
  "parsed_line indentSize p =
     \<lparr> raw = snd p, indent = line_indent (snd p), content = line_content (snd p),
       depth = line_indent (snd p) div indentSize, lineNumber = fst p + 1 \<rparr>"

definition blank_record :: "nat \<Rightarrow> nat \<times> string \<Rightarrow> BlankLineInfo" where
  "blank_record indentSize p =
     \<lparr> blank_lineNumber = fst p + 1, blank_indent = line_indent (snd p),
       blank_depth = line_indent (snd p) div indentSize \<rparr>"

definition scan_of :: "nat \<Rightarrow> nat \<Rightarrow> string list \<Rightarrow> ScanResult" where
  "scan_of indentSize i ls =
     \<lparr> scan_lines = map (parsed_line indentSize)
                      (filter (\<lambda>p. \<not> is_blank_line (snd p)) (enumerate i ls)),
       scan_blankLines = map (blank_record indentSize)
                      (filter (\<lambda>p. is_blank_line (snd p)) (enumerate i ls)) \<rparr>"

section \<open>Inputs used in the examples\<close>

definition strict_options :: "nat \<Rightarrow> ResolvedDecodeOptions" where
  "strict_options n = \<lparr> opt_indent = n, strict = True \<rparr>"

definition lenient_options :: "nat \<Rightarrow> ResolvedDecodeOptions" where
  "lenient_options n = \<lparr> opt_indent = n, strict = False \<rparr>"

text \<open>The one-line input \<^verbatim>\<open>x "a:b"\<close>: its only colon stands inside quotes.\<close>

definition quoted_colon_line :: string where
  "quoted_colon_line = ''x '' @ [DOUBLE_QUOTE] @ ''a:b'' @ [DOUBLE_QUOTE]"

text \<open>The three-line input \<^verbatim>\<open>a: x\<close>, a line that is a single tab, \<^verbatim>\<open>b: y\<close>.\<close>

definition blank_tab_input :: string where
  "blank_tab_input = ''a: x'' @ [NEWLINE, TAB, NEWLINE] @ ''b: y''"

text \<open>The three-line input \<^verbatim>\<open>k: v\<close>, a line of a space and a tab, \<^verbatim>\<open>m: w\<close>.\<close>

definition tab_blank_example :: string where
  "tab_blank_example = ''k: v'' @ [NEWLINE, SPACE, TAB, NEWLINE] @ ''m: w''"

text \<open>The input of the specification's scenario 6: \<^verbatim>\<open>a:\<close> and, indented by three
  spaces, \<^verbatim>\<open>b: 1\<close>.\<close>

definition odd_indent_input :: string where
  "odd_indent_input = ''a:'' @ [NEWLINE] @ ''   b: 1''"







text \<open>
  \<open>helpers_never_raise e V\<close>: none of the four validation helpers of \<open>V\<close> throws the
  error \<open>e\<close>, whatever its arguments.
\<close>

definition helpers_never_raise :: "error \<Rightarrow> validation \<Rightarrow> bool" where
  "helpers_never_raise e V \<longleftrightarrow>
     (\<forall>actual expected itemType opts. assertExpectedCount V actual expected itemType opts \<noteq> Some e) \<and>
     (\<forall>startLine endLine blanks strict' what.
        validateNoBlankLinesInRange V startLine endLine blanks strict' what \<noteq> Some e) \<and>
     (\<forall>c itemDepth expected. validateNoExtraListItems V c itemDepth expected \<noteq> Some e) \<and>
     (\<forall>c rowDepth header. validateNoExtraTabularRows V c rowDepth header \<noteq> Some e)"



section \<open>The encoder\<close>

subsection \<open>Options, headers and the line writer (types.ts, encode/primitives.ts)\<close>









subsection \<open>The tree walk (encode/encoders.ts)\<close>








subsection \<open>The values whose round trip is proved\<close>








subsection \<open>Values used in the examples\<close>







section \<open>Escaping: proofs\<close>

lemma unescape_loop_drop:
  "i \<le> length v \<Longrightarrow>
   unescape_loop v i result = map_sum id ((@) result) (spec_unescape (drop i v))"
proof (induction v i result rule: unescape_loop.induct)
  case (1 v i result)
  show ?case
  proof (cases "i < length v")
    case False
    with "1.prems" show ?thesis
      by (subst unescape_loop.simps) simp
  next
    case lt: True
    then have d: "drop i v = v ! i # drop (Suc i) v"
      by (simp add: Cons_nth_drop_Suc)
    show ?thesis
    proof (cases "v ! i = BACKSLASH")
      case False
      with lt "1.IH"(6) [OF lt False] d show ?thesis
        by (simp add: unescape_loop.simps [of v i result] sum.map_comp comp_def
            map_sum.compositionality flip: map_sum.comp)
    next
      case bs: True
      show ?thesis
      proof (cases "i + 1 \<ge> length v")
        case True
        with lt bs d show ?thesis
          by (simp add: unescape_loop.simps [of v i result])
      next
        case False
        then have lt2: "Suc i < length v" by simp
        then have d2: "drop (Suc i) v = v ! Suc i # drop (Suc (Suc i)) v"
          by (simp add: Cons_nth_drop_Suc)
        note IH = "1.IH"(1-5) [OF lt bs False refl]
        show ?thesis
          using lt bs False lt2 d d2 IH
          by (simp add: unescape_loop.simps [of v i result] escape_of_def Let_def
              map_sum.compositionality comp_def char_consts)
      qed
    qed
  qed
qed

lemma map_sum_append_Nil: "map_sum id ((@) []) x = x"
  by (cases x) simp_all

lemma unescapeString_spec: "unescapeString v = spec_unescape v"
  by (simp add: unescapeString_def unescape_loop_drop map_sum_append_Nil)


lemma replaceAll_Nil [simp]: "replaceAll c r [] = []"
  by (simp add: replaceAll_def)

lemma replaceAll_append: "replaceAll c r (xs @ ys) = replaceAll c r xs @ replaceAll c r ys"
  by (simp add: replaceAll_def)

lemma replaceAll_Cons: "replaceAll c r (x # xs) = (if x = c then r else [x]) @ replaceAll c r xs"
  by (simp add: replaceAll_def)

lemma escapeString_Nil [simp]: "escapeString [] = []"
  by (simp add: escapeString_def)

lemma escapeString_Cons: "escapeString (c # s) = esc_char c @ escapeString s"
  by (simp add: escapeString_def esc_char_def replaceAll_Cons replaceAll_append char_consts)

lemma escapeString_append: "escapeString (a @ b) = escapeString a @ escapeString b"
  by (induction a) (simp_all add: escapeString_Cons)

lemma spec_unescape_esc_char:
  "spec_unescape (esc_char c @ s) = map_sum id ((#) c) (spec_unescape s)"
  by (simp add: esc_char_def escape_of_def char_consts)

lemma spec_unescape_escapeString: "spec_unescape (escapeString s) = Inr s"
  by (induction s) (simp_all add: escapeString_Cons spec_unescape_esc_char)


lemma no_unescaped_special_esc_char:
  "no_unescaped_special (esc_char c @ s) = no_unescaped_special s"
  by (cases s) (simp_all add: esc_char_def escape_of_def char_consts)

lemma no_unescaped_special_escapeString: "no_unescaped_special (escapeString s)"
  by (induction s) (simp_all add: escapeString_Cons no_unescaped_special_esc_char)

lemma set_esc_char:
  "NEWLINE \<notin> set (esc_char c) \<and> CARRIAGE_RETURN \<notin> set (esc_char c) \<and> TAB \<notin> set (esc_char c)"
  by (simp add: esc_char_def char_consts)

lemma set_escapeString:
  "NEWLINE \<notin> set (escapeString s) \<and> CARRIAGE_RETURN \<notin> set (escapeString s) \<and>
   TAB \<notin> set (escapeString s)"
  using set_esc_char by (induction s) (simp_all add: escapeString_Cons)

text \<open>
  Claim C10. Escaping then unescaping is the identity on every string:
  \<open>unescapeString (escapeString s)\<close> returns \<open>s\<close> (it does not raise). The output of
  \<open>escapeString\<close> has no unescaped backslash, double quote, newline, carriage return
  or tab: read left to right it consists of valid escape pairs and of characters other
  than these five, and a raw newline, carriage return or tab does not occur in it at all.
\<close>

theorem escape_unescape_roundtrip:
  "unescapeString (escapeString s) = Inr s \<and>
   no_unescaped_special (escapeString s) \<and>
   NEWLINE \<notin> set (escapeString s) \<and> CARRIAGE_RETURN \<notin> set (escapeString s) \<and>
   TAB \<notin> set (escapeString s)"
  using set_escapeString [of s]
  by (simp add: unescapeString_spec spec_unescape_escapeString no_unescaped_special_escapeString)

lemma spec_unescape_append:
  "spec_unescape pre = Inr p \<Longrightarrow>
   spec_unescape (pre @ s) = map_sum id ((@) p) (spec_unescape s)"
proof (induction pre arbitrary: p rule: spec_unescape.induct)
  case 1
  then show ?case by (cases "spec_unescape s") auto
next
  case (2 c rest)
  show ?case
  proof (cases "c = BACKSLASH")
    case False
    with "2.prems" obtain q where q: "spec_unescape rest = Inr q" "p = c # q"
      by (cases "spec_unescape rest") auto
    with False "2.IH"(2) [OF False q(1)] show ?thesis
      by (cases "spec_unescape s") simp_all
  next
    case True
    with "2.prems" obtain x rest' where r: "rest = x # rest'"
      by (cases rest) auto
    with True "2.prems" obtain y where y: "escape_of x = Some y"
      by (cases "escape_of x") auto
    with True r "2.prems" obtain q where q: "spec_unescape rest' = Inr q" "p = y # q"
      by (cases "spec_unescape rest'") auto
    with True r y "2.IH"(1) [OF True r y q(1)] show ?thesis
      by (cases "spec_unescape s") simp_all
  qed
qed

text \<open>
  Claim C6. Inside a quoted string, \<open>unescapeString\<close> accepts exactly the five escapes
  backslash-backslash, backslash-quote, backslash-n, backslash-r and backslash-t, which
  stand for backslash, double quote, newline, carriage return and tab. Wherever the scan
  (having unescaped the prefix \<open>pre\<close> to \<open>p\<close>) meets a backslash followed by any other
  character \<open>x\<close>, it raises the syntax error for the invalid escape \<open>x\<close>; a lone
  backslash at the end of the input raises the syntax error for a backslash at the end.
\<close>

theorem unescapeString_escape_alphabet:
  "unescapeString pre = Inr p \<Longrightarrow>
   unescapeString (pre @ BACKSLASH # x # rest) =
     (if x = BACKSLASH then map_sum id (\<lambda>r. p @ BACKSLASH # r) (unescapeString rest)
      else if x = DOUBLE_QUOTE then map_sum id (\<lambda>r. p @ DOUBLE_QUOTE # r) (unescapeString rest)
      else if x = CHR ''n'' then map_sum id (\<lambda>r. p @ NEWLINE # r) (unescapeString rest)
      else if x = CHR ''r'' then map_sum id (\<lambda>r. p @ CARRIAGE_RETURN # r) (unescapeString rest)
      else if x = CHR ''t'' then map_sum id (\<lambda>r. p @ TAB # r) (unescapeString rest)
      else Inl (SyntaxError (InvalidEscape x))) \<and>
   unescapeString (pre @ [BACKSLASH]) = Inl (SyntaxError BackslashAtEnd)"
  by (cases "spec_unescape rest")
    (simp_all add: unescapeString_spec spec_unescape_append escape_of_def)

theorem unescapeString_escape_alphabet_witness:
  "unescapeString ''ab'' = Inr ''ab'' \<and>
   unescapeString (''ab'' @ BACKSLASH # CHR ''n'' # ''c'') = Inr (''ab'' @ NEWLINE # ''c'') \<and>
   unescapeString (''ab'' @ BACKSLASH # CHR ''x'' # ''c'') =
     Inl (SyntaxError (InvalidEscape (CHR ''x''))) \<and>
   unescapeString (''ab'' @ [BACKSLASH]) = Inl (SyntaxError BackslashAtEnd)"
proof -
  have h: "unescapeString ''ab'' = Inr ''ab''"
    by (simp add: unescapeString_spec char_consts)
  have c: "unescapeString ''c'' = Inr ''c''"
    by (simp add: unescapeString_spec char_consts)
  show ?thesis
    using unescapeString_escape_alphabet [OF h, of "CHR ''n''" "''c''"]
      unescapeString_escape_alphabet [OF h, of "CHR ''x''" "''c''"] h c
    by (simp add: char_consts)
qed

section \<open>Trimming\<close>

lemma quote_backslash_distinct [simp]:
  "DOUBLE_QUOTE \<noteq> BACKSLASH" "BACKSLASH \<noteq> DOUBLE_QUOTE"
  by (simp_all add: char_consts)

lemma trimStart_idem: "trimStart (trimStart s) = trimStart s"
  by (simp add: trimStart_def dropWhile_idem)

lemma trimEnd_is_prefix: "\<exists>w. s = trimEnd s @ w"
proof -
  have "rev s = takeWhile isWhiteSpace (rev s) @ dropWhile isWhiteSpace (rev s)"
    by simp
  then have "rev (rev s) = rev (takeWhile isWhiteSpace (rev s) @ dropWhile isWhiteSpace (rev s))"
    by simp
  then have "s = rev (dropWhile isWhiteSpace (rev s)) @ rev (takeWhile isWhiteSpace (rev s))"
    by (simp only: rev_rev_ident rev_append)
  then show ?thesis
    unfolding trimEnd_def by blast
qed

lemma trimEnd_idem: "trimEnd (trimEnd s) = trimEnd s"
  by (simp add: trimEnd_def dropWhile_idem)

lemma trimStart_fixed: "s = [] \<or> \<not> isWhiteSpace (hd s) \<Longrightarrow> trimStart s = s"
  by (cases s) (auto simp: trimStart_def)

lemma trimStart_hd: "trimStart s = [] \<or> \<not> isWhiteSpace (hd (trimStart s))"
  unfolding trimStart_def
  by (cases "dropWhile isWhiteSpace s = []") (simp_all add: hd_dropWhile)

lemma trimStart_trimEnd_fixed:
  assumes "a = [] \<or> \<not> isWhiteSpace (hd a)"
  shows "trimStart (trimEnd a) = trimEnd a"
proof (cases "trimEnd a = []")
  case True
  then show ?thesis by (simp add: trimStart_def)
next
  case False
  obtain w where w: "a = trimEnd a @ w"
    using trimEnd_is_prefix by blast
  with False have "hd (trimEnd a) = hd a"
    by (metis hd_append2)
  moreover from False w have "a \<noteq> []"
    by auto
  ultimately show ?thesis
    using assms by (intro trimStart_fixed) simp
qed

lemma trim_idem: "trim (trim s) = trim s"
  by (simp add: trim_def trimStart_trimEnd_fixed trimStart_hd trimEnd_idem)

lemma trim_Nil [simp]: "trim [] = []"
  by (simp add: trim_def trimStart_def trimEnd_def)


section \<open>Quote-aware splitting: proofs\<close>

lemma split_quoted_Cons:
  "split_quoted d q cur (c # s) =
     (if c = BACKSLASH \<and> q \<and> s \<noteq> [] then split_quoted d q (cur @ [c, hd s]) (tl s)
      else if c = DOUBLE_QUOTE then split_quoted d (\<not> q) (cur @ [c]) s
      else if c = d \<and> \<not> q then cur # split_quoted d q [] s
      else split_quoted d q (cur @ [c]) s)"
  by (cases s) auto

lemma split_quoted_nonempty [simp]: "split_quoted d q cur s \<noteq> []"
  by (induction d q cur s rule: split_quoted.induct) auto

lemma split_quoted_single_empty:
  "split_quoted d q cur s = [[]] \<longleftrightarrow> cur = [] \<and> s = []"
  by (induction d q cur s rule: split_quoted.induct) auto

lemma parseDelimitedValues_loop_spec:
  "i \<le> length input \<Longrightarrow>
   parseDelimitedValues_loop input d i cur q vals =
     (if vals = [] \<and> split_quoted d q cur (drop i input) = [[]] then []
      else vals @ map trim (split_quoted d q cur (drop i input)))"
proof (induction input d i cur q vals rule: parseDelimitedValues_loop.induct)
  case (1 input d i cur q vals)
  show ?case
  proof (cases "i < length input")
    case False
    with "1.prems" show ?thesis
      by (subst parseDelimitedValues_loop.simps) auto
  next
    case lt: True
    then have d1: "drop i input = input ! i # drop (Suc i) input"
      by (simp add: Cons_nth_drop_Suc)
    show ?thesis
    proof (cases "input ! i = BACKSLASH \<and> i + 1 < length input \<and> q")
      case True
      then have d2: "drop (Suc i) input = input ! Suc i # drop (Suc (Suc i)) input"
        by (simp add: Cons_nth_drop_Suc)
      from True lt "1.IH"(1) [OF lt refl True] d1 d2 show ?thesis
        by (subst parseDelimitedValues_loop.simps) (simp add: Let_def)
    next
      case nesc: False
      then have nesc': "\<not> (input ! i = BACKSLASH \<and> q \<and> drop (Suc i) input \<noteq> [])"
        by auto
      show ?thesis
      proof (cases "input ! i = DOUBLE_QUOTE")
        case True
        with nesc nesc' lt "1.IH"(2) [OF lt refl nesc True] d1 show ?thesis
          by (subst parseDelimitedValues_loop.simps) (simp add: Let_def split_quoted_Cons)
      next
        case nq: False
        show ?thesis
        proof (cases "input ! i = d \<and> \<not> q")
          case True
          with nesc nesc' nq lt "1.IH"(3) [OF lt refl nesc nq True] d1 show ?thesis
            by (subst parseDelimitedValues_loop.simps) (simp add: Let_def split_quoted_Cons)
        next
          case False
          with nesc nesc' nq lt "1.IH"(4) [OF lt refl nesc nq False] d1 show ?thesis
            by (subst parseDelimitedValues_loop.simps) (auto simp add: Let_def split_quoted_Cons)
        qed
      qed
    qed
  qed
qed

lemma parseDelimitedValues_split:
  "parseDelimitedValues s D =
     (if s = [] then [] else map trim (split_quoted (DELIMITERS D) False [] s))"
  by (simp add: parseDelimitedValues_def parseDelimitedValues_loop_spec split_quoted_single_empty)

lemma DELIMITERS_not_quote [simp]:
  "DELIMITERS D \<noteq> DOUBLE_QUOTE" "DELIMITERS D \<noteq> BACKSLASH"
  by (cases D; simp add: char_consts)+

lemma join_split_quoted: "join d (split_quoted d q cur s) = cur @ s"
proof (induction d q cur s rule: split_quoted.induct)
  case (3 d q cur c x s)
  then show ?case
    by (cases "split_quoted d q [] (x # s)") auto
qed auto

lemma split_quoted_trailing:
  "\<not> in_quotes_after q s \<Longrightarrow> d \<noteq> DOUBLE_QUOTE \<Longrightarrow>
   split_quoted d q cur (s @ [d]) = split_quoted d q cur s @ [[]]"
proof (induction d q cur s rule: split_quoted.induct)
  case (3 d q cur c x s)
  then show ?case
    by (cases s; cases "c = d") (auto split: if_splits)
qed (auto split: if_splits)

text \<open>
  Claim C7. \<open>parseDelimitedValues s D\<close> splits \<open>s\<close> on \<open>D\<close> respecting one level of
  double-quoted runs: for a non-empty input it returns the trimmed values of the
  quote-aware scan (\<open>inQuotes\<close> flipped by a double quote, a backslash inside quotes
  consumed together with the next character, \<open>D\<close> outside quotes ending a value), and
  joining the untrimmed values with \<open>D\<close> gives back the input. Every returned value is
  trimmed. A leading empty value is kept when the input starts with the delimiter, a
  trailing empty value is kept when the input ends with a delimiter that stands outside
  quotes, and the entirely empty input yields the empty list.
\<close>

theorem parseDelimitedValues_splits:
  "parseDelimitedValues [] D = [] \<and>
   parseDelimitedValues s D =
     (if s = [] then [] else map trim (split_quoted (DELIMITERS D) False [] s)) \<and>
   join (DELIMITERS D) (split_quoted (DELIMITERS D) False [] s) = s \<and>
   map trim (parseDelimitedValues s D) = parseDelimitedValues s D \<and>
   parseDelimitedValues (DELIMITERS D # s) D =
     [] # map trim (split_quoted (DELIMITERS D) False [] s) \<and>
   (\<not> in_quotes_after False s \<longrightarrow>
      parseDelimitedValues (s @ [DELIMITERS D]) D =
        map trim (split_quoted (DELIMITERS D) False [] s) @ [[]])"
  by (simp add: parseDelimitedValues_split join_split_quoted split_quoted_Cons
      split_quoted_trailing trim_idem)

theorem parseDelimitedValues_splits_witness:
  "\<not> in_quotes_after False (''a, '' @ [DOUBLE_QUOTE] @ ''b,c'' @ [DOUBLE_QUOTE]) \<and>
   parseDelimitedValues (''a, '' @ [DOUBLE_QUOTE] @ ''b,c'' @ [DOUBLE_QUOTE] @ [DELIMITERS Delim_comma])
       Delim_comma =
     [''a'', [DOUBLE_QUOTE] @ ''b,c'' @ [DOUBLE_QUOTE], []] \<and>
   parseDelimitedValues ('','' @ ''x'') Delim_comma = [[], ''x'']"
proof -
  have q: "\<not> in_quotes_after False (''a, '' @ [DOUBLE_QUOTE] @ ''b,c'' @ [DOUBLE_QUOTE])"
    by (simp add: char_consts)
  have t: "trim ''a'' = ''a''" "trim ([DOUBLE_QUOTE] @ ''b,c'' @ [DOUBLE_QUOTE]) = [DOUBLE_QUOTE] @ ''b,c'' @ [DOUBLE_QUOTE]"
    "trim '' '' = []" "trim ''x'' = ''x''"
    by (simp_all add: trim_def trimStart_def trimEnd_def isWhiteSpace_def char_consts)
  show ?thesis
    using parseDelimitedValues_splits [of Delim_comma "''a, '' @ [DOUBLE_QUOTE] @ ''b,c'' @ [DOUBLE_QUOTE]"]
      parseDelimitedValues_splits [of Delim_comma "''x''"] q t
    by (simp add: char_consts trim_def trimStart_def trimEnd_def isWhiteSpace_def)
qed

section \<open>Numeric tokens: proofs\<close>

lemma trim_fixed_trimStart: "trim t = t \<Longrightarrow> trimStart t = t"
proof -
  assume t: "trim t = t"
  have "trimStart (trimEnd (trimStart t)) = trimEnd (trimStart t)"
    by (rule trimStart_trimEnd_fixed) (rule trimStart_hd)
  with t show ?thesis by (simp add: trim_def)
qed

lemma to_double_not_NaN [simp]: "to_double q \<noteq> NaN"
  by (simp add: to_double_def)

lemma negate_NaN_iff [simp]: "negate n = NaN \<longleftrightarrow> n = NaN"
  by (cases n) (simp_all add: negate_def)

lemma with_exponent_not_NaN: "with_exponent ip fp r = (n, r') \<Longrightarrow> n \<noteq> NaN"
  by (auto simp: with_exponent_def split: option.splits)

lemma scan_unsigned_decimal_not_NaN: "scan_unsigned_decimal s = Some (n, r) \<Longrightarrow> n \<noteq> NaN"
  by (auto simp: scan_unsigned_decimal_def Let_def dest: with_exponent_not_NaN
      split: if_splits list.splits)

lemma scan_decimal_not_NaN: "scan_decimal s = Some (n, r) \<Longrightarrow> n \<noteq> NaN"
  by (auto simp: scan_decimal_def dest: scan_unsigned_decimal_not_NaN split: if_splits)

lemma not_digit_chars [simp]:
  "\<not> isDigit (CHR ''-'')" "\<not> isDigit (CHR ''+'')" "\<not> isDigit (CHR ''.'')"
  "\<not> isDigit (CHR ''I'')" "\<not> isDigit (CHR ''e'')" "\<not> isDigit (CHR ''E'')"
  "isDigit (CHR ''0'')"
  by (simp_all add: isDigit_def charCode_def)

lemma with_exponent_rest:
  "snd (with_exponent ip fp r) = (case scan_exponent r of None \<Rightarrow> r | Some (e, r') \<Rightarrow> r')"
  by (simp add: with_exponent_def split: option.splits)

lemma scan_unsigned_decimal_digits:
  assumes "takeWhile isDigit u \<noteq> []" and "r1 = dropWhile isDigit u"
  shows "scan_unsigned_decimal u =
     Some (case r1 of
             [] \<Rightarrow> with_exponent (takeWhile isDigit u) [] []
           | d # r2 \<Rightarrow>
               if d = CHR ''.''
               then with_exponent (takeWhile isDigit u) (takeWhile isDigit r2) (dropWhile isDigit r2)
               else with_exponent (takeWhile isDigit u) [] r1)"
proof -
  from assms(1) obtain c cs where u: "u = c # cs" "isDigit c"
    by (cases u) (auto split: if_splits)
  then have ninf: "\<not> startsWith u ''Infinity''"
    by (auto simp: startsWith_def)
  with assms show ?thesis
    unfolding scan_unsigned_decimal_def Let_def
    by (simp split: list.splits del: dropWhile_eq_Nil_conv)
qed

lemma matches_number_regex_alt:
  "matches_number_regex s \<longleftrightarrow>
     takeWhile isDigit (if startsWith s ''-'' then tl s else s) \<noteq> [] \<and>
     after_exponent (regex_tail (dropWhile isDigit (if startsWith s ''-'' then tl s else s))) = []"
  by (simp add: matches_number_regex_def Let_def regex_tail_def after_exponent_def)

lemma after_exponent_dot: "after_exponent (CHR ''.'' # r) = CHR ''.'' # r"
  by (simp add: after_exponent_def scan_exponent_def)

lemma matches_unsigned_scan:
  assumes "takeWhile isDigit u \<noteq> []"
    and "after_exponent (regex_tail (dropWhile isDigit u)) = []"
  shows "\<exists>n. scan_unsigned_decimal u = Some (n, [])"
proof (cases "dropWhile isDigit u")
  case Nil
  then show ?thesis
    by (simp add: scan_unsigned_decimal_digits [OF assms(1) refl] with_exponent_def
        scan_exponent_def del: dropWhile_eq_Nil_conv)
next
  case (Cons d r)
  show ?thesis
  proof (cases "d = CHR ''.''")
    case False
    with Cons assms(2) have "snd (with_exponent (takeWhile isDigit u) [] (d # r)) = []"
      by (simp add: with_exponent_rest regex_tail_def after_exponent_def)
    with Cons False show ?thesis
      by (cases "with_exponent (takeWhile isDigit u) [] (d # r)")
        (simp add: scan_unsigned_decimal_digits [OF assms(1) refl])
  next
    case dot: True
    show ?thesis
    proof (cases "takeWhile isDigit r = []")
      case True
      with Cons dot assms(2) show ?thesis
        by (simp add: regex_tail_def after_exponent_dot)
    next
      case False
      with Cons dot assms(2)
      have "snd (with_exponent (takeWhile isDigit u) (takeWhile isDigit r) (dropWhile isDigit r)) = []"
        by (simp add: with_exponent_rest regex_tail_def after_exponent_def)
      with Cons dot show ?thesis
        by (cases "with_exponent (takeWhile isDigit u) (takeWhile isDigit r) (dropWhile isDigit r)")
          (simp add: scan_unsigned_decimal_digits [OF assms(1) refl])
    qed
  qed
qed

lemma matches_number_regex_scan:
  assumes "matches_number_regex t"
  shows "\<exists>n. scan_decimal t = Some (n, [])"
proof (cases "startsWith t ''-''")
  case True
  with assms have "\<exists>n. scan_unsigned_decimal (tl t) = Some (n, [])"
    by (intro matches_unsigned_scan) (simp_all add: matches_number_regex_alt)
  with True show ?thesis
    by (auto simp: scan_decimal_def)
next
  case False
  with assms have d: "takeWhile isDigit t \<noteq> []"
    by (simp add: matches_number_regex_alt)
  then have "\<not> startsWith t ''+''"
    by (cases t) (auto simp: startsWith_def split: if_splits)
  moreover from False assms have "\<exists>n. scan_unsigned_decimal t = Some (n, [])"
    by (intro matches_unsigned_scan) (simp_all add: matches_number_regex_alt)
  ultimately show ?thesis
    using False by (auto simp: scan_decimal_def)
qed

lemma non_decimal_literal_leading_zero:
  "non_decimal_literal t = Some n \<Longrightarrow> hasLeadingZero t"
  by (auto simp: non_decimal_literal_def hasLeadingZero_def Let_def split: list.splits if_splits)

lemma Number_not_leading_zero:
  assumes "trim t = t" "t \<noteq> []" "\<not> hasLeadingZero t"
  shows "Number t = (case scan_decimal t of Some (n, []) \<Rightarrow> n | _ \<Rightarrow> NaN)"
proof -
  from assms(3) have "non_decimal_literal t = None"
    using non_decimal_literal_leading_zero by (cases "non_decimal_literal t") auto
  with assms(1,2) show ?thesis
    by (simp add: Number_def)
qed

lemma parseFloat_eq_Number:
  assumes "trim t = t" "t \<noteq> []" "\<not> hasLeadingZero t" "isFinite (Number t)"
  shows "parseFloat t = Number t"
proof -
  from assms(4) have nn: "Number t \<noteq> NaN"
    by (auto simp: isFinite_def)
  with Number_not_leading_zero [OF assms(1-3)]
  obtain n where "scan_decimal t = Some (n, [])"
    by (auto split: option.splits list.splits prod.splits)
  with Number_not_leading_zero [OF assms(1-3)] trim_fixed_trimStart [OF assms(1)]
  show ?thesis
    by (simp add: parseFloat_def)
qed

lemma isNumericLiteral_iff:
  "t \<noteq> [] \<Longrightarrow> isNumericLiteral t \<longleftrightarrow> \<not> hasLeadingZero t \<and> isFinite (Number t)"
  by (auto simp: isNumericLiteral_def hasLeadingZero_def isNaN_def isFinite_def Let_def)

lemma matches_number_regex_Number:
  assumes "trim t = t" "matches_number_regex t" "\<not> hasLeadingZero t"
  shows "Number t \<noteq> NaN"
proof -
  from assms(2) have "t \<noteq> []"
    by (auto simp: matches_number_regex_def startsWith_def Let_def)
  with Number_not_leading_zero [OF assms(1) _ assms(3)] matches_number_regex_scan [OF assms(2)]
  show ?thesis
    by (auto dest: scan_decimal_not_NaN)
qed

lemma DOUBLE_OVERFLOW_big: "1000000000 < DOUBLE_OVERFLOW"
  by (simp add: DOUBLE_OVERFLOW_def)

lemma to_double_small: "\<bar>q\<bar> \<le> 1000000000 \<Longrightarrow> to_double q = Finite q"
  using DOUBLE_OVERFLOW_big by (auto simp: to_double_def)

lemmas js_eval =
  trim_def trimStart_def trimEnd_def isWhiteSpace_def startsWith_def endsWith_def
  includes_char_def isDigit_def charCode_def digit_val_def digits_val_def
  scan_exponent_def decimal_value_def with_exponent_def scan_unsigned_decimal_def
  scan_decimal_def non_decimal_literal_def radix_digit_def Number_def parseFloat_def
  isNaN_def isFinite_def negate_def hasLeadingZero_def
  isBooleanOrNullLiteral_def isNumericLiteral_def TRUE_LITERAL_def FALSE_LITERAL_def
  NULL_LITERAL_def matches_number_regex_def matches_leading_zero_regex_def
  parsePrimitiveToken_def parseStringLiteral_def to_double_small Let_def char_consts

text \<open>
  Claim C2, as amended. For a trimmed, non-empty token that does not start with a double
  quote and is not \<open>true\<close>, \<open>false\<close> or \<open>null\<close>, \<open>parsePrimitiveToken\<close> returns a
  number exactly when the token has no leading zero (it is not a token of more than one
  character that starts with \<open>0\<close> and continues with anything but a dot) and
  JavaScript's \<open>Number\<close> reads it as a finite number; the number returned is that value.
  Every other such token is returned as the bare string. Every token that matches the
  numeric-like pattern and has no leading zero is read by \<open>Number\<close> (not NaN), so it is
  a number unless its value overflows; every leading-zero integer has a leading zero and
  is a string. The empty token yields the empty string.
\<close>

theorem parsePrimitiveToken_unquoted:
  assumes "trim t = t" and "t \<noteq> []" and "\<not> startsWith t [DOUBLE_QUOTE]"
    and "\<not> isBooleanOrNullLiteral t"
  shows "parsePrimitiveToken t =
           (if \<not> hasLeadingZero t \<and> isFinite (Number t) then Inr (PNumber (Number t))
            else Inr (PString t)) \<and>
         (matches_number_regex t \<and> \<not> hasLeadingZero t \<longrightarrow> Number t \<noteq> NaN) \<and>
         (matches_leading_zero_regex t \<longrightarrow> hasLeadingZero t) \<and>
         parsePrimitiveToken [] = Inr (PString [])"
proof -
  have "parsePrimitiveToken t =
           (if \<not> hasLeadingZero t \<and> isFinite (Number t) then Inr (PNumber (Number t))
            else Inr (PString t))"
    using assms parseFloat_eq_Number [OF assms(1,2)]
    by (simp add: parsePrimitiveToken_def isNumericLiteral_iff)
  moreover have "matches_leading_zero_regex t \<longrightarrow> hasLeadingZero t"
    by (auto simp: matches_leading_zero_regex_def hasLeadingZero_def list_all_iff
        split: list.splits) (metis not_digit_chars(3) nth_Cons_0 list.set_intros(1) neq_Nil_conv)
  ultimately show ?thesis
    using matches_number_regex_Number [OF assms(1)]
    by (simp add: parsePrimitiveToken_def)
qed


theorem parsePrimitiveToken_unquoted_witness:
  "trim ''12.5'' = ''12.5'' \<and> matches_number_regex ''12.5'' \<and>
   parsePrimitiveToken ''12.5'' = Inr (PNumber (Finite (25 / 2))) \<and>
   matches_leading_zero_regex ''05'' \<and> parsePrimitiveToken ''05'' = Inr (PString ''05'')"
proof -
  have h: "trim ''12.5'' = ''12.5''" "''12.5'' \<noteq> []" "\<not> startsWith ''12.5'' [DOUBLE_QUOTE]"
    "\<not> isBooleanOrNullLiteral ''12.5''"
    by (simp_all add: js_eval)
  have n: "Number ''12.5'' = Finite (25 / 2)" "\<not> hasLeadingZero ''12.5''"
    "matches_number_regex ''12.5''"
    by (simp_all add: js_eval)
  have z: "trim ''05'' = ''05''" "''05'' \<noteq> []" "\<not> startsWith ''05'' [DOUBLE_QUOTE]"
    "\<not> isBooleanOrNullLiteral ''05''"
    by (simp_all add: js_eval)
  have m: "matches_leading_zero_regex ''05''"
    by (simp add: js_eval)
  show ?thesis
    using parsePrimitiveToken_unquoted [OF h] parsePrimitiveToken_unquoted [OF z] n h(1) m
    by (simp add: isFinite_def)
qed

text \<open>
  The claim as stated fails in both directions: \<open>0e5\<close> matches the numeric-like pattern
  and is not a leading-zero integer, yet it is returned as a string; \<open>+5\<close> does not
  match the pattern, yet it is returned as the number 5.
\<close>

theorem parsePrimitiveToken_regex_counterexample:
  "matches_number_regex ''0e5'' \<and> \<not> matches_leading_zero_regex ''0e5'' \<and>
   parsePrimitiveToken ''0e5'' = Inr (PString ''0e5'') \<and>
   \<not> matches_number_regex ''+5'' \<and>
   parsePrimitiveToken ''+5'' = Inr (PNumber (Finite 5))"
  by (simp add: js_eval)

section \<open>Array headers: proofs\<close>

text \<open>
  Claim C3. The bracket segment is read with \<^verbatim>\<open>Number.parseInt\<close>, which accepts a
  sign and ignores what follows the digits, and only NaN is rejected. The line
  \<^verbatim>\<open>[-3]:\<close> is therefore accepted as an array header with the declared length -3,
  where the claim says that a bracket segment that is not a non-negative decimal integer
  is rejected.
\<close>

theorem parseArrayHeaderLine_negative_length:
  "parseArrayHeaderLine ''[-3]:'' DEFAULT_DELIMITER =
     Inr (Some (\<lparr> key = None, length_hdr = - 3, delimiter = Delim_comma,
                   fields_hdr = None, hasLengthMarker = False \<rparr>, None))"
proof -
  have i: "indexOf ''[-3]:'' OPEN_BRACKET 0 = 0" "indexOf ''[-3]:'' CLOSE_BRACKET 0 = 3"
    "indexOf ''[-3]:'' OPEN_BRACE 3 = - 1" "indexOf ''[-3]:'' COLON 4 = 4"
    "indexOf ''[-3]:'' CLOSE_BRACE (- 1) = - 1"
    by (simp_all add: indexOf_def char_consts)
  have p0: "parseInt10 ''-3'' = Some (- 3)"
    by (simp add: parseInt10_def js_eval)
  have p: "parseBracketSegment ''-3'' Delim_comma = Inr (- 3, Delim_comma, False)"
    by (simp add: parseBracketSegment_def p0 startsWith_def endsWith_def char_consts)
  have s: "slice ''[-3]:'' 1 3 = ''-3''" "slice_from ''[-3]:'' 5 = []"
    by (simp_all add: slice_def slice_from_def relative_index_def)
  have t: "\<not> startsWith (trimStart ''[-3]:'') [DOUBLE_QUOTE]"
    by (simp add: startsWith_def trimStart_def isWhiteSpace_def char_consts)
  show ?thesis
    by (simp add: parseArrayHeaderLine_def DEFAULT_DELIMITER_def i p s t Let_def)
qed

section \<open>The decoder: the recursion in the source's own names\<close>

lemma decodeObject_loop_0 [simp]: "decodeObject_loop V 0 c baseDepth opts obj = None"
  by (simp add: decodeObject_loop_def)

lemma decodeObject_loop_Suc:
  "decodeObject_loop V (Suc n) c baseDepth opts obj =
     decodeObject_step (decodeKeyValuePair V n)
       (\<lambda>c' obj'. decodeObject_loop V n c' baseDepth opts obj') c baseDepth opts obj"
  by (simp add: decodeObject_loop_def decodeKeyValuePair_def decodeKeyValue_def Let_def)

lemma decodeKeyValue_0 [simp]: "decodeKeyValue V 0 content' c baseDepth opts = None"
  by (simp add: decodeKeyValue_def)

lemma decodeObject_eta:
  "(\<lambda>c' d' o'. objectLoop_of (decoders_at V n) c' d' o' []) = decodeObject V n"
  by (intro ext) (simp add: decodeObject_def decodeObject_loop_def)

lemma decodeKeyValue_Suc:
  "decodeKeyValue V (Suc n) =
     decodeKeyValue_with (decodeArrayFromHeader V n) (decodeObject V n)"
  by (intro ext) (simp add: decodeKeyValue_def decodeArrayFromHeader_def decodeObject_eta Let_def)

lemma decodeArrayFromHeader_0 [simp]:
  "decodeArrayFromHeader V 0 header inlineValues c baseDepth opts = None"
  by (simp add: decodeArrayFromHeader_def)

lemma decodeArrayFromHeader_Suc:
  "decodeArrayFromHeader V (Suc n) = decodeArrayFromHeader_with V (decodeListArray V n)"
  by (intro ext) (simp add: decodeArrayFromHeader_def decodeListArray_def decodeListArray_loop_def Let_def)

lemma decodeListArray_loop_0 [simp]:
  "decodeListArray_loop V 0 header c itemDepth opts items startLine endLine = None"
  by (simp add: decodeListArray_loop_def)

lemma decodeListArray_loop_Suc:
  "decodeListArray_loop V (Suc n) header c itemDepth opts items startLine endLine =
     decodeListArray_step (decodeListItem V n)
       (\<lambda>c' items' s e. decodeListArray_loop V n header c' itemDepth opts items' s e)
       header c itemDepth opts items startLine endLine"
  by (simp add: decodeListArray_loop_def decodeListItem_def Let_def)

lemma decodeListItem_0 [simp]: "decodeListItem V 0 c baseDepth activeDelimiter opts = None"
  by (simp add: decodeListItem_def)

lemma decodeListItem_Suc:
  "decodeListItem V (Suc n) =
     decodeListItem_with (decodeArrayFromHeader V n) (decodeObjectFromListItem V n)"
  by (intro ext)
    (simp add: decodeListItem_def decodeArrayFromHeader_def decodeObjectFromListItem_def
      decodeKeyValue_def decodeObjectFromListItem_loop_def Let_def)

lemma decodeObjectFromListItem_loop_0 [simp]:
  "decodeObjectFromListItem_loop V 0 c followDepth opts obj = None"
  by (simp add: decodeObjectFromListItem_loop_def)

lemma decodeObjectFromListItem_loop_Suc:
  "decodeObjectFromListItem_loop V (Suc n) c followDepth opts obj =
     decodeObjectFromListItem_step (decodeKeyValuePair V n)
       (\<lambda>c' obj'. decodeObjectFromListItem_loop V n c' followDepth opts obj')
       c followDepth opts obj"
  by (simp add: decodeObjectFromListItem_loop_def decodeKeyValuePair_def decodeKeyValue_def Let_def)

lemma bind_result_simps [simp]:
  "bind_result None f = None"
  "bind_result (Some (Inl e)) f = Some (Inl e)"
  "bind_result (Some (Inr x)) f = f x"
  "bind_result (ok x) f = f x"
  "bind_result (throw e) f = throw e"
  by (simp_all add: bind_result_def ok_def throw_def)


lemma ok_eq [simp]: "ok x = Some (Inr y) \<longleftrightarrow> x = y"
  by (simp add: ok_def)

lemma throw_neq_ok [simp]: "throw e \<noteq> Some (Inr y)"
  by (simp add: throw_def)

lemma check_eq_ok: "check v = Some (Inr u) \<longleftrightarrow> v = None"
  by (cases v) (simp_all add: check_def ok_def throw_def)

section \<open>Array bodies never exceed the declared length\<close>





section \<open>Evaluating the decoder on concrete inputs\<close>

text \<open>
  Rules for running the model inside the kernel: the recursive functions unfold only at
  a concrete cursor and with numeral fuel, the congruence rules make the simplifier
  evaluate a condition or a scrutinee before it looks at the branches, and small
  numbers are seen to be in the double range without computing the overflow bound.
\<close>

lemma to_double_code [code]:
  "to_double q =
     (if \<bar>q\<bar> \<le> 1000000000 then Finite q
      else if q \<ge> DOUBLE_OVERFLOW then PosInfinity
      else if q \<le> - DOUBLE_OVERFLOW then NegInfinity
      else Finite q)"
  using DOUBLE_OVERFLOW_big by (auto simp: to_double_def)

lemma decodeObject_loop_numeral_at:
  "decodeObject_loop V (numeral k) \<lparr>lines = ls, index = i, blankLines = bs\<rparr> baseDepth opts obj =
     decodeObject_step (decodeKeyValuePair V (pred_numeral k))
       (\<lambda>c' obj'. decodeObject_loop V (pred_numeral k) c' baseDepth opts obj')
       \<lparr>lines = ls, index = i, blankLines = bs\<rparr> baseDepth opts obj"
  by (simp add: numeral_eq_Suc decodeObject_loop_Suc)

lemma decodeKeyValue_numeral_at:
  "decodeKeyValue V (numeral k) s \<lparr>lines = ls, index = i, blankLines = bs\<rparr> d opts =
     decodeKeyValue_with (decodeArrayFromHeader V (pred_numeral k))
       (decodeObject V (pred_numeral k)) s \<lparr>lines = ls, index = i, blankLines = bs\<rparr> d opts"
  by (simp add: numeral_eq_Suc decodeKeyValue_Suc)

lemma decodeArrayFromHeader_numeral_at:
  "decodeArrayFromHeader V (numeral k) h iv \<lparr>lines = ls, index = i, blankLines = bs\<rparr> d opts =
     decodeArrayFromHeader_with V (decodeListArray V (pred_numeral k)) h iv
       \<lparr>lines = ls, index = i, blankLines = bs\<rparr> d opts"
  by (simp add: numeral_eq_Suc decodeArrayFromHeader_Suc)

lemma decodeListArray_loop_numeral_at:
  "decodeListArray_loop V (numeral k) header \<lparr>lines = ls, index = i, blankLines = bs\<rparr>
       itemDepth opts items startLine endLine =
     decodeListArray_step (decodeListItem V (pred_numeral k))
       (\<lambda>c' items' s e.
          decodeListArray_loop V (pred_numeral k) header c' itemDepth opts items' s e)
       header \<lparr>lines = ls, index = i, blankLines = bs\<rparr> itemDepth opts items startLine endLine"
  by (simp add: numeral_eq_Suc decodeListArray_loop_Suc)

lemma decodeListItem_numeral_at:
  "decodeListItem V (numeral k) \<lparr>lines = ls, index = i, blankLines = bs\<rparr> d dl opts =
     decodeListItem_with (decodeArrayFromHeader V (pred_numeral k))
       (decodeObjectFromListItem V (pred_numeral k))
       \<lparr>lines = ls, index = i, blankLines = bs\<rparr> d dl opts"
  by (simp add: numeral_eq_Suc decodeListItem_Suc)

lemma decodeObjectFromListItem_loop_numeral_at:
  "decodeObjectFromListItem_loop V (numeral k) \<lparr>lines = ls, index = i, blankLines = bs\<rparr>
       followDepth opts obj =
     decodeObjectFromListItem_step (decodeKeyValuePair V (pred_numeral k))
       (\<lambda>c' obj'. decodeObjectFromListItem_loop V (pred_numeral k) c' followDepth opts obj')
       \<lparr>lines = ls, index = i, blankLines = bs\<rparr> followDepth opts obj"
  by (simp add: numeral_eq_Suc decodeObjectFromListItem_loop_Suc)

lemma bind_result_cong_weak: "m = m' \<Longrightarrow> bind_result m f = bind_result m' f"
  by simp

lemmas eval_congs = if_weak_cong let_weak_cong bind_result_cong_weak
  sum.case_cong_weak option.case_cong_weak list.case_cong_weak prod.case_cong_weak

lemmas cursor_eval =
  peek_def advance_def atEnd_def current_def cursor_length_def new_LineCursor_def

lemmas decoder_eval =
  decodeValueFromLines_def cursor_eval decode_fuel_def
  decodeObject_def decodeObject_loop_numeral_at decodeObject_step_def
  decodeKeyValuePair_def decodeKeyValuePair_with_def
  decodeKeyValue_numeral_at decodeKeyValue_with_def
  decodeArrayFromHeader_numeral_at decodeArrayFromHeader_with_def
  decodeListArray_def decodeListArray_with_def
  decodeListArray_loop_numeral_at decodeListArray_step_def
  decodeListItem_numeral_at decodeListItem_with_def
  decodeObjectFromListItem_def decodeObjectFromListItem_with_def
  decodeObjectFromListItem_loop_numeral_at decodeObjectFromListItem_step_def
  decodeInlinePrimitiveArray_def decodeTabularArray_def
  isKeyValueLine_def check_def Let_def

lemmas string_eval =
  js_eval indexOf_def slice_def slice_from_def relative_index_def parseInt10_def
  parseBracketSegment_def parseArrayHeaderLine_def DEFAULT_DELIMITER_def
  isArrayHeaderAfterHyphen_def isObjectFirstFieldAfterHyphen_def
  findUnquotedChar_def findUnquotedChar_loop.simps findClosingQuote_def findClosingQuote_loop.simps
  parseKeyToken_def parseUnquotedKey_def parseUnquotedKey_loop.simps parseQuotedKey_def
  unescapeString_def unescape_loop.simps
  parseDelimitedValues_def parseDelimitedValues_loop.simps mapRowValuesToPrimitives_def
  LIST_ITEM_PREFIX_def

section \<open>The line scanner: proofs\<close>

lemma toParsedLines_loop_Cons:
  "toParsedLines_loop (raw' # rest) i indentSize strict' parsed blanks =
     (if is_blank_line raw' then
        toParsedLines_loop rest (i + 1) indentSize strict' parsed
          (blanks @ [blank_record indentSize (i, raw')])
      else if strict' \<and> offends indentSize raw' then Inl (strict_error indentSize i raw')
      else toParsedLines_loop rest (i + 1) indentSize strict'
             (parsed @ [parsed_line indentSize (i, raw')]) blanks)"
  by (auto simp: Let_def is_blank_line_def line_content_def line_indent_def offends_def
      strict_error_def tab_in_indentation_def parsed_line_def blank_record_def
      computeDepthFromIndent_def)

lemma toParsedLines_loop_result:
  "toParsedLines_loop ls i indentSize strict' parsed blanks = Inr scanResult \<Longrightarrow>
   scanResult =
     \<lparr> scan_lines = parsed @ scan_lines (scan_of indentSize i ls),
       scan_blankLines = blanks @ scan_blankLines (scan_of indentSize i ls) \<rparr>"
proof (induction ls arbitrary: i parsed blanks)
  case Nil
  then show ?case by (auto simp: scan_of_def)
next
  case (Cons raw' rest)
  show ?case
  proof (cases "is_blank_line raw'")
    case True
    with Cons.prems have
      "toParsedLines_loop rest (Suc i) indentSize strict' parsed
         (blanks @ [blank_record indentSize (i, raw')]) = Inr scanResult"
      by (simp add: toParsedLines_loop_Cons del: toParsedLines_loop.simps)
    from Cons.IH [OF this] True show ?thesis
      by (simp add: scan_of_def enumerate_simps)
  next
    case False
    with Cons.prems have
      "toParsedLines_loop rest (Suc i) indentSize strict'
         (parsed @ [parsed_line indentSize (i, raw')]) blanks = Inr scanResult"
      by (simp add: toParsedLines_loop_Cons del: toParsedLines_loop.simps split: if_splits)
    from Cons.IH [OF this] False show ?thesis
      by (simp add: scan_of_def enumerate_simps)
  qed
qed

lemma toParsedLines_loop_accepts:
  "(strict' \<longrightarrow> (\<forall>raw' \<in> set ls. \<not> offends indentSize raw')) \<Longrightarrow>
   toParsedLines_loop ls i indentSize strict' parsed blanks =
     Inr \<lparr> scan_lines = parsed @ scan_lines (scan_of indentSize i ls),
           scan_blankLines = blanks @ scan_blankLines (scan_of indentSize i ls) \<rparr>"
proof (induction ls arbitrary: i parsed blanks)
  case Nil
  then show ?case by (simp add: scan_of_def)
next
  case (Cons raw' rest)
  then show ?case
    by (auto simp: toParsedLines_loop_Cons scan_of_def enumerate_simps offends_def
        simp del: toParsedLines_loop.simps)
qed

lemma toParsedLines_loop_rejects:
  "k < length ls \<Longrightarrow> offends indentSize (ls ! k) \<Longrightarrow>
   (\<forall>j < k. \<not> offends indentSize (ls ! j)) \<Longrightarrow>
   toParsedLines_loop ls i indentSize True parsed blanks =
     Inl (strict_error indentSize (i + k) (ls ! k))"
proof (induction ls arbitrary: i k parsed blanks)
  case Nil
  then show ?case by simp
next
  case (Cons raw' rest)
  show ?case
  proof (cases k)
    case 0
    with Cons.prems show ?thesis
      by (auto simp: toParsedLines_loop_Cons offends_def simp del: toParsedLines_loop.simps)
  next
    case (Suc k')
    with Cons.prems have no: "\<not> offends indentSize raw'"
      by auto
    from Suc Cons.prems have k': "k' < length rest" "offends indentSize (rest ! k')"
      "\<forall>j < k'. \<not> offends indentSize (rest ! j)"
      by auto
    from Cons.IH [OF k'] no Suc show ?thesis
      by (simp add: toParsedLines_loop_Cons del: toParsedLines_loop.simps)
  qed
qed

lemma toParsedLines_loop_error:
  "toParsedLines_loop ls i indentSize strict' parsed blanks = Inl e \<Longrightarrow>
   strict' \<and> (\<exists>k raw'. e = strict_error indentSize k raw')"
proof (induction ls arbitrary: i parsed blanks)
  case Nil
  then show ?case by simp
next
  case (Cons raw' rest)
  then show ?case
    by (auto simp: toParsedLines_loop_Cons simp del: toParsedLines_loop.simps split: if_splits)
qed

lemma trim_empty_iff: "trim s = [] \<longleftrightarrow> (\<forall>c \<in> set s. isWhiteSpace c)"
proof
  assume "trim s = []"
  then have "\<forall>c \<in> set (trimStart s). isWhiteSpace c"
    by (simp add: trim_def trimEnd_def)
  moreover have "s = takeWhile isWhiteSpace s @ trimStart s"
    by (simp add: trimStart_def)
  moreover have "\<forall>c \<in> set (takeWhile isWhiteSpace s). isWhiteSpace c"
    by (auto dest: set_takeWhileD)
  ultimately show "\<forall>c \<in> set s. isWhiteSpace c"
    by (metis Un_iff set_append)
next
  assume "\<forall>c \<in> set s. isWhiteSpace c"
  then have "dropWhile isWhiteSpace s = []"
    by simp
  then show "trim s = []"
    by (simp add: trim_def trimStart_def trimEnd_def del: dropWhile_eq_Nil_conv)
qed

lemma split_lines_nonempty [simp]: "split_lines s \<noteq> []"
  by (induction s) (auto split: list.splits)

lemma set_split_lines: "(\<Union>l \<in> set (split_lines s). set l) = set s - {NEWLINE}"
proof (induction s)
  case Nil
  then show ?case by simp
next
  case (Cons c s)
  then show ?case
    by (cases "split_lines s") auto
qed

lemma isWhiteSpace_consts [simp]:
  "isWhiteSpace NEWLINE" "isWhiteSpace SPACE" "isWhiteSpace TAB"
  by (simp_all add: isWhiteSpace_def char_consts)

lemma nonblank_line_exists:
  assumes "trim s \<noteq> []"
  shows "\<exists>l \<in> set (split_lines s). \<not> is_blank_line l"
proof -
  from assms obtain c where c: "c \<in> set s" "\<not> isWhiteSpace c"
    by (auto simp: trim_empty_iff)
  then have "c \<noteq> NEWLINE"
    by auto
  with c(1) have "c \<in> (\<Union>l \<in> set (split_lines s). set l)"
    by (simp add: set_split_lines)
  then obtain l where l: "l \<in> set (split_lines s)" "c \<in> set l"
    by auto
  have "l = takeWhile (\<lambda>c. c = SPACE) l @ line_content l"
    by (simp add: line_content_def line_indent_def flip: dropWhile_eq_drop)
  moreover have "c \<notin> set (takeWhile (\<lambda>c. c = SPACE) l)"
    using c(2) by (auto dest: set_takeWhileD)
  ultimately have "c \<in> set (line_content l)"
    using l(2) by (metis Un_iff set_append)
  with c(2) have "\<not> is_blank_line l"
    by (auto simp: is_blank_line_def trim_empty_iff)
  with l(1) show ?thesis
    by auto
qed

lemma scan_of_lines_nonempty:
  assumes "\<exists>l \<in> set ls. \<not> is_blank_line l"
  shows "scan_lines (scan_of indentSize i ls) \<noteq> []"
proof -
  from assms obtain k where k: "k < length ls" "\<not> is_blank_line (ls ! k)"
    by (auto simp: in_set_conv_nth)
  then have "(i + k, ls ! k) \<in> set (enumerate i ls)"
    by (simp add: in_set_enumerate_eq)
  with k(2) have "\<exists>p \<in> set (enumerate i ls). \<not> is_blank_line (snd p)"
    by (intro bexI [of _ "(i + k, ls ! k)"]) simp_all
  then show ?thesis
    by (simp add: scan_of_def filter_empty_conv)
qed

lemma toParsedLines_nonblank:
  assumes "trim s \<noteq> []" and "toParsedLines s indentSize strict' = Inr scanResult"
  shows "scanResult = scan_of indentSize 0 (split_lines s)" and "scan_lines scanResult \<noteq> []"
proof -
  from assms have "toParsedLines_loop (split_lines s) 0 indentSize strict' [] [] = Inr scanResult"
    by (simp add: toParsedLines_def)
  from toParsedLines_loop_result [OF this]
  show r: "scanResult = scan_of indentSize 0 (split_lines s)"
    by (simp add: scan_of_def)
  from nonblank_line_exists [OF assms(1)] show "scan_lines scanResult \<noteq> []"
    unfolding r by (rule scan_of_lines_nonempty)
qed

lemma toParsedLines_blank:
  "trim s = [] \<Longrightarrow> toParsedLines s indentSize strict' = Inr \<lparr> scan_lines = [], scan_blankLines = [] \<rparr>"
  by (simp add: toParsedLines_def)

lemma decode_run:
  assumes "toParsedLines input (opt_indent opts) (strict opts) = Inr scanResult"
    and "scan_lines scanResult \<noteq> []"
    and "decodeValueFromLines V (decode_fuel (scan_lines scanResult))
           (new_LineCursor (scan_lines scanResult) (scan_blankLines scanResult)) opts = r"
  shows "decode V input opts = r"
  using assms by (simp add: decode_def)

lemma offends_nonblank_input:
  assumes "l \<in> set (split_lines s)" and "\<not> is_blank_line l"
  shows "trim s \<noteq> []"
proof -
  from assms(2) obtain c where c: "c \<in> set (line_content l)" "\<not> isWhiteSpace c"
    by (auto simp: is_blank_line_def trim_empty_iff)
  then have "c \<in> set l"
    by (auto simp: line_content_def dest: in_set_dropD)
  with assms(1) have "c \<in> (\<Union>l \<in> set (split_lines s). set l)"
    by blast
  then have "c \<in> set s"
    by (simp add: set_split_lines)
  with c(2) show ?thesis
    by (auto simp: trim_empty_iff)
qed

lemma scan_of_depth:
  "pl \<in> set (scan_lines (scan_of indentSize i ls)) \<Longrightarrow>
   indent pl = line_indent (raw pl) \<and> depth pl = indent pl div indentSize \<and> \<not> is_blank_line (raw pl)"
  by (auto simp: scan_of_def parsed_line_def)

lemma split_lines_odd_indent_input: "split_lines odd_indent_input = [''a:'', ''   b: 1'']"
  by (simp add: odd_indent_input_def char_consts)

lemma scan_of_odd_indent_input: "scan_of 2 0 [''a:'', ''   b: 1''] =
   \<lparr>scan_lines = [\<lparr>raw = ''a:'', indent = 0, content = ''a:'', depth = 0, lineNumber = 1\<rparr>,
         \<lparr>raw = ''   b: 1'', indent = 3, content = ''b: 1'', depth = 1, lineNumber = 2\<rparr>],
     scan_blankLines = []\<rparr>"
  by (simp add: scan_of_def parsed_line_def is_blank_line_def line_content_def line_indent_def js_eval enumerate_eq_zip)

lemma offends_odd_indent_input: "offends 2 ''   b: 1''" "\<not> offends 2 ''a:''" "\<not> tab_in_indentation ''   b: 1''" "line_indent ''   b: 1'' = 3"
  by (simp_all add: offends_def is_blank_line_def line_content_def line_indent_def tab_in_indentation_def js_eval)

lemma trim_odd_indent_input: "trim odd_indent_input \<noteq> []"
  by (simp add: odd_indent_input_def js_eval)


lemma decode_lines_odd_indent_lenient: "decodeValueFromLines spec_validation
     (decode_fuel (scan_lines (scan_of 2 0 [''a:'', ''   b: 1''])))
     (new_LineCursor (scan_lines (scan_of 2 0 [''a:'', ''   b: 1'']))
        (scan_blankLines (scan_of 2 0 [''a:'', ''   b: 1'']))) (lenient_options 2) =
     Some (Inr (JsonObject [(''a'', JsonObject [(''b'', Primitive (PNumber (Finite 1)))])]))"
  unfolding scan_of_odd_indent_input by (simp add: lenient_options_def decoder_eval string_eval cong: eval_congs)

lemma split_lines_blank_tab_input: "split_lines blank_tab_input = [''a: x'', [TAB], ''b: y'']"
  by (simp add: blank_tab_input_def char_consts)

lemma scan_of_raw:
  "map raw (scan_lines (scan_of indentSize i ls)) = filter (\<lambda>l. \<not> is_blank_line l) ls"
  by (induction ls arbitrary: i) (simp_all add: scan_of_def parsed_line_def)

lemma scan_of_blank_count:
  "length (scan_blankLines (scan_of indentSize i ls)) = length (filter is_blank_line ls)"
  by (induction ls arbitrary: i) (simp_all add: scan_of_def)

lemma facts_tab_blank_example:
  "split_lines tab_blank_example = [''k: v'', [SPACE, TAB], ''m: w'']"
  "trim tab_blank_example \<noteq> []"
  "\<not> offends 2 ''k: v''" "\<not> offends 2 [SPACE, TAB]" "\<not> offends 2 ''m: w''"
  "filter (\<lambda>l. \<not> is_blank_line l) [''k: v'', [SPACE, TAB], ''m: w''] = [''k: v'', ''m: w'']"
  by (simp_all add: tab_blank_example_def offends_def is_blank_line_def line_content_def
      line_indent_def tab_in_indentation_def js_eval)

section \<open>Which errors the decoder raises\<close>

lemma map_sum_id_Inl [simp]: "map_sum id f x = Inl e \<longleftrightarrow> x = Inl e"
  by (cases x) simp_all

lemma spec_unescape_error: "spec_unescape v = Inl e \<Longrightarrow> \<exists>m. e = SyntaxError m"
  by (induction v arbitrary: e rule: spec_unescape.induct)
    (auto split: if_splits list.splits option.splits)

lemma unescapeString_error: "unescapeString v = Inl e \<Longrightarrow> \<exists>m. e = SyntaxError m"
  by (simp add: unescapeString_spec spec_unescape_error)

lemma parseStringLiteral_error: "parseStringLiteral t = Inl e \<Longrightarrow> \<exists>m. e = SyntaxError m"
  by (auto simp: parseStringLiteral_def Let_def unescapeString_error split: if_splits option.splits)

lemma parsePrimitiveToken_error: "parsePrimitiveToken t = Inl e \<Longrightarrow> \<exists>m. e = SyntaxError m"
  by (auto simp: parsePrimitiveToken_def Let_def parseStringLiteral_error split: if_splits)

lemma map_throwing_error:
  "map_throwing f xs = Inl e \<Longrightarrow> \<exists>x. f x = Inl e"
  by (induction xs) (auto split: sum.splits)

lemma mapRowValuesToPrimitives_error:
  "mapRowValuesToPrimitives vs = Inl e \<Longrightarrow> \<exists>m. e = SyntaxError m"
  using map_throwing_error parsePrimitiveToken_error
  unfolding mapRowValuesToPrimitives_def by blast

lemma parseKeyToken_error: "parseKeyToken s i = Inl e \<Longrightarrow> \<exists>m. e = SyntaxError m"
  by (auto simp: parseKeyToken_def parseQuotedKey_def parseUnquotedKey_def Let_def
      unescapeString_error split: if_splits option.splits sum.splits)

lemma parseArrayHeaderLine_error:
  "parseArrayHeaderLine s d = Inl e \<Longrightarrow> \<exists>m. e = SyntaxError m"
proof -
  assume a: "parseArrayHeaderLine s d = Inl e"
  then obtain xs where "map_throwing (\<lambda>field. parseStringLiteral (trim field)) xs = Inl e"
    unfolding parseArrayHeaderLine_def Let_def
    by (auto split: if_splits sum.splits prod.splits)
  then show ?thesis
    using map_throwing_error parseStringLiteral_error by blast
qed



lemma parser_no_EmptyInput [simp]:
  "parsePrimitiveToken t \<noteq> Inl (TypeError EmptyInput)"
  "mapRowValuesToPrimitives vs \<noteq> Inl (TypeError EmptyInput)"
  "parseKeyToken s i \<noteq> Inl (TypeError EmptyInput)"
  "parseArrayHeaderLine s d \<noteq> Inl (TypeError EmptyInput)"
  using parsePrimitiveToken_error mapRowValuesToPrimitives_error parseKeyToken_error
    parseArrayHeaderLine_error by blast+

lemma helpers_never_raiseD:
  assumes "helpers_never_raise e V"
  shows "assertExpectedCount V actual expected itemType opts \<noteq> Some e"
    and "validateNoBlankLinesInRange V startLine endLine blanks strict' what \<noteq> Some e"
    and "validateNoExtraListItems V c itemDepth expected' \<noteq> Some e"
    and "validateNoExtraTabularRows V c rowDepth header \<noteq> Some e"
  using assms by (simp_all add: helpers_never_raise_def)

lemma decodeInlinePrimitiveArray_no_EmptyInput:
  assumes "helpers_never_raise (TypeError EmptyInput) V"
  shows "decodeInlinePrimitiveArray V header inlineValues opts \<noteq> Inl (TypeError EmptyInput)"
  using helpers_never_raiseD [OF assms(1)]
  by (auto simp: decodeInlinePrimitiveArray_def split: if_splits option.splits sum.splits)

lemma decodeTabularArray_loop_error:
  "helpers_never_raise (TypeError EmptyInput) V \<Longrightarrow>
   decodeTabularArray_loop V header c rowDepth opts objects startLine endLine = Inl e \<Longrightarrow>
   e \<noteq> TypeError EmptyInput"
proof (induction V header c rowDepth opts objects startLine endLine
    rule: decodeTabularArray_loop.induct)
  case (1 V header c rowDepth opts objects startLine endLine)
  note V = helpers_never_raiseD [OF "1.prems"(1)]
  show ?case
  proof (cases "\<not> atEnd c \<and> int (length objects) < length_hdr header")
    case False
    with "1.prems" show ?thesis
      by (subst (asm) decodeTabularArray_loop.simps) auto
  next
    case guard: True
    show ?thesis
    proof (cases "peek c")
      case None
      with guard "1.prems" show ?thesis
        by (subst (asm) decodeTabularArray_loop.simps) auto
    next
      case (Some line)
      show ?thesis
      proof (cases "depth line = rowDepth")
        case False
        with guard Some "1.prems" show ?thesis
          by (subst (asm) decodeTabularArray_loop.simps) (auto split: if_splits)
      next
        case True
        let ?vals = "parseDelimitedValues (content line) (delimiter header)"
        have nl: "\<not> depth line < rowDepth"
          using True by simp
        show ?thesis
        proof (cases "assertExpectedCount V (length ?vals) (int (length (the (fields_hdr header))))
                ''tabular row values'' opts")
          case (Some e')
          with True guard \<open>peek c = Some line\<close> "1.prems"(2) have "e = e'"
            by (subst (asm) decodeTabularArray_loop.simps) (simp add: Let_def)
          with Some V(1) show ?thesis by metis
        next
          case a: None
          show ?thesis
          proof (cases "mapRowValuesToPrimitives ?vals")
            case (Inl e')
            with a True guard \<open>peek c = Some line\<close> "1.prems"(2) have "e = e'"
              by (subst (asm) decodeTabularArray_loop.simps) (simp add: Let_def)
            with Inl show ?thesis by auto
          next
            case (Inr primitives)
            with a True guard \<open>peek c = Some line\<close> "1.prems"(2) have
              rec: "decodeTabularArray_loop V header (advance c) rowDepth opts
                  (objects @ [JsonObject (row_object (the (fields_hdr header)) primitives 0 [])])
                  (if startLine = None then Some (lineNumber line) else startLine)
                  (Some (lineNumber line)) = Inl e"
              by (subst (asm) decodeTabularArray_loop.simps) (simp add: Let_def)
            from "1.IH" [OF guard \<open>peek c = Some line\<close> nl True refl refl refl refl a Inr "1.prems"(1) rec]
            show ?thesis .
          qed
        qed
      qed
    qed
  qed
qed

lemma decodeTabularArray_no_EmptyInput:
  assumes V: "helpers_never_raise (TypeError EmptyInput) V"
  shows "decodeTabularArray V header c baseDepth opts \<noteq> Inl (TypeError EmptyInput)"
  using helpers_never_raiseD [OF V] decodeTabularArray_loop_error [OF V]
  by (fastforce simp: decodeTabularArray_def Let_def split: sum.splits option.splits if_splits prod.splits)



lemma bind_result_eq_error:
  "bind_result m f = Some (Inl e) \<longleftrightarrow>
     m = Some (Inl e) \<or> (\<exists>x. m = Some (Inr x) \<and> f x = Some (Inl e))"
  by (auto simp: bind_result_def split: option.splits sum.splits)

lemma ok_no_error [simp]: "ok x \<noteq> Some (Inl e)"
  by (simp add: ok_def)

lemma throw_eq_error [simp]: "throw e' = Some (Inl e) \<longleftrightarrow> e' = e"
  by (simp add: throw_def)

lemma check_eq_error [simp]: "check v = Some (Inl e) \<longleftrightarrow> v = Some e"
  by (cases v) (simp_all add: check_def)

lemma decodeObject_step_no_EmptyInput:
  assumes "\<And>line c' d' o'. kvp line c' d' o' \<noteq> Some (Inl (TypeError EmptyInput))"
    and "\<And>c' obj'. self c' obj' \<noteq> Some (Inl (TypeError EmptyInput))"
  shows "decodeObject_step kvp self c baseDepth opts obj \<noteq> Some (Inl (TypeError EmptyInput))"
  unfolding decodeObject_step_def using assms
  by (auto simp: bind_result_eq_error split: option.splits prod.splits)

lemma decodeObjectFromListItem_step_no_EmptyInput:
  assumes "\<And>line c' d' o'. kvp line c' d' o' \<noteq> Some (Inl (TypeError EmptyInput))"
    and "\<And>c' obj'. self c' obj' \<noteq> Some (Inl (TypeError EmptyInput))"
  shows "decodeObjectFromListItem_step kvp self c followDepth opts obj \<noteq> Some (Inl (TypeError EmptyInput))"
  unfolding decodeObjectFromListItem_step_def using assms
  by (auto simp: bind_result_eq_error split: option.splits prod.splits)

lemma decodeKeyValuePair_with_no_EmptyInput:
  assumes "\<And>s c' d' o'. kv s c' d' o' \<noteq> Some (Inl (TypeError EmptyInput))"
  shows "decodeKeyValuePair_with kv line c baseDepth opts \<noteq> Some (Inl (TypeError EmptyInput))"
  unfolding decodeKeyValuePair_with_def using assms
  by (auto simp: bind_result_eq_error split: prod.splits)

lemma decodeKeyValue_with_no_EmptyInput:
  assumes "\<And>h iv c' d' o'. arr h iv c' d' o' \<noteq> Some (Inl (TypeError EmptyInput))"
    and "\<And>c' d' o'. obj c' d' o' \<noteq> Some (Inl (TypeError EmptyInput))"
  shows "decodeKeyValue_with arr obj content' c baseDepth opts \<noteq> Some (Inl (TypeError EmptyInput))"
  unfolding decodeKeyValue_with_def Let_def using assms
  by (auto simp: bind_result_eq_error split: option.splits prod.splits sum.splits if_splits)

lemma decodeArrayFromHeader_with_no_EmptyInput:
  assumes V: "helpers_never_raise (TypeError EmptyInput) V"
    and "\<And>h c' d' o'. la h c' d' o' \<noteq> Some (Inl (TypeError EmptyInput))"
  shows "decodeArrayFromHeader_with V la header inlineValues c baseDepth opts \<noteq>
    Some (Inl (TypeError EmptyInput))"
  unfolding decodeArrayFromHeader_with_def
  using decodeInlinePrimitiveArray_no_EmptyInput [OF V] decodeTabularArray_no_EmptyInput [OF V] assms(2)
  by (auto split: sum.splits)

lemma decodeListArray_step_no_EmptyInput:
  assumes "\<And>c' d' dl o'. li c' d' dl o' \<noteq> Some (Inl (TypeError EmptyInput))"
    and "\<And>c' items' s e. self c' items' s e \<noteq> Some (Inl (TypeError EmptyInput))"
  shows "decodeListArray_step li self header c itemDepth opts items startLine endLine \<noteq>
    Some (Inl (TypeError EmptyInput))"
  unfolding decodeListArray_step_def Let_def using assms
  by (auto simp: bind_result_eq_error split: option.splits prod.splits)

lemma decodeListArray_with_no_EmptyInput:
  assumes V: "helpers_never_raise (TypeError EmptyInput) V"
    and "\<And>h c' d' o' items s e. loop h c' d' o' items s e \<noteq> Some (Inl (TypeError EmptyInput))"
  shows "decodeListArray_with V loop header c baseDepth opts \<noteq> Some (Inl (TypeError EmptyInput))"
  unfolding decodeListArray_with_def Let_def
  using helpers_never_raiseD [OF V] assms(2)
  by (auto simp: bind_result_eq_error split: prod.splits if_splits)

lemma decodeObjectFromListItem_with_no_EmptyInput:
  assumes "\<And>s c' d' o'. kv s c' d' o' \<noteq> Some (Inl (TypeError EmptyInput))"
    and "\<And>c' d' o' obj. loop c' d' o' obj \<noteq> Some (Inl (TypeError EmptyInput))"
  shows "decodeObjectFromListItem_with kv loop firstLine c baseDepth opts \<noteq>
    Some (Inl (TypeError EmptyInput))"
  unfolding decodeObjectFromListItem_with_def Let_def using assms
  by (auto simp: bind_result_eq_error split: prod.splits)

lemma decodeListItem_with_no_EmptyInput:
  assumes "\<And>h iv c' d' o'. arr h iv c' d' o' \<noteq> Some (Inl (TypeError EmptyInput))"
    and "\<And>l c' d' o'. ofl l c' d' o' \<noteq> Some (Inl (TypeError EmptyInput))"
  shows "decodeListItem_with arr ofl c baseDepth activeDelimiter opts \<noteq>
    Some (Inl (TypeError EmptyInput))"
  unfolding decodeListItem_with_def Let_def using assms
  by (auto simp: bind_result_eq_error split: option.splits prod.splits sum.splits if_splits)


lemma decoders_no_EmptyInput:
  assumes V: "helpers_never_raise (TypeError EmptyInput) V"
  shows "(\<forall>c d opts obj. decodeObject_loop V n c d opts obj \<noteq> Some (Inl (TypeError EmptyInput))) \<and>
    (\<forall>s c d opts. decodeKeyValue V n s c d opts \<noteq> Some (Inl (TypeError EmptyInput))) \<and>
    (\<forall>h iv c d opts. decodeArrayFromHeader V n h iv c d opts \<noteq> Some (Inl (TypeError EmptyInput))) \<and>
    (\<forall>h c d opts items s e.
       decodeListArray_loop V n h c d opts items s e \<noteq> Some (Inl (TypeError EmptyInput))) \<and>
    (\<forall>c d dl opts. decodeListItem V n c d dl opts \<noteq> Some (Inl (TypeError EmptyInput))) \<and>
    (\<forall>c d opts obj.
       decodeObjectFromListItem_loop V n c d opts obj \<noteq> Some (Inl (TypeError EmptyInput)))"
proof (induction n)
  case 0
  show ?case by simp
next
  case (Suc n)
  then have ol: "\<And>c d opts obj. decodeObject_loop V n c d opts obj \<noteq> Some (Inl (TypeError EmptyInput))"
    and kv: "\<And>s c d opts. decodeKeyValue V n s c d opts \<noteq> Some (Inl (TypeError EmptyInput))"
    and ar: "\<And>h iv c d opts. decodeArrayFromHeader V n h iv c d opts \<noteq> Some (Inl (TypeError EmptyInput))"
    and ll: "\<And>h c d opts items s e.
       decodeListArray_loop V n h c d opts items s e \<noteq> Some (Inl (TypeError EmptyInput))"
    and li: "\<And>c d dl opts. decodeListItem V n c d dl opts \<noteq> Some (Inl (TypeError EmptyInput))"
    and fl: "\<And>c d opts obj.
       decodeObjectFromListItem_loop V n c d opts obj \<noteq> Some (Inl (TypeError EmptyInput))"
    by simp_all
  have kvp: "\<And>line c d opts. decodeKeyValuePair V n line c d opts \<noteq> Some (Inl (TypeError EmptyInput))"
    unfolding decodeKeyValuePair_def by (rule decodeKeyValuePair_with_no_EmptyInput) (rule kv)
  have ob: "\<And>c d opts. decodeObject V n c d opts \<noteq> Some (Inl (TypeError EmptyInput))"
    unfolding decodeObject_def by (rule ol)
  have la: "\<And>h c d opts. decodeListArray V n h c d opts \<noteq> Some (Inl (TypeError EmptyInput))"
    unfolding decodeListArray_def by (rule decodeListArray_with_no_EmptyInput [OF V]) (rule ll)
  have ofl: "\<And>l c d opts. decodeObjectFromListItem V n l c d opts \<noteq> Some (Inl (TypeError EmptyInput))"
    unfolding decodeObjectFromListItem_def
    by (rule decodeObjectFromListItem_with_no_EmptyInput) (rule kv, rule fl)
  have 1: "\<And>c d opts obj. decodeObject_loop V (Suc n) c d opts obj \<noteq> Some (Inl (TypeError EmptyInput))"
    unfolding decodeObject_loop_Suc by (rule decodeObject_step_no_EmptyInput) (rule kvp, rule ol)
  have 2: "\<And>s c d opts. decodeKeyValue V (Suc n) s c d opts \<noteq> Some (Inl (TypeError EmptyInput))"
    unfolding decodeKeyValue_Suc by (rule decodeKeyValue_with_no_EmptyInput) (rule ar, rule ob)
  have 3: "\<And>h iv c d opts. decodeArrayFromHeader V (Suc n) h iv c d opts \<noteq> Some (Inl (TypeError EmptyInput))"
    unfolding decodeArrayFromHeader_Suc by (rule decodeArrayFromHeader_with_no_EmptyInput [OF V]) (rule la)
  have 4: "\<And>h c d opts items s e.
       decodeListArray_loop V (Suc n) h c d opts items s e \<noteq> Some (Inl (TypeError EmptyInput))"
    unfolding decodeListArray_loop_Suc by (rule decodeListArray_step_no_EmptyInput) (rule li, rule ll)
  have 5: "\<And>c d dl opts. decodeListItem V (Suc n) c d dl opts \<noteq> Some (Inl (TypeError EmptyInput))"
    unfolding decodeListItem_Suc by (rule decodeListItem_with_no_EmptyInput) (rule ar, rule ofl)
  have 6: "\<And>c d opts obj.
       decodeObjectFromListItem_loop V (Suc n) c d opts obj \<noteq> Some (Inl (TypeError EmptyInput))"
    unfolding decodeObjectFromListItem_loop_Suc
    by (rule decodeObjectFromListItem_step_no_EmptyInput) (rule kvp, rule fl)
  show ?case
    by (intro conjI allI 1 2 3 4 5 6)
qed

lemma decodeValueFromLines_no_EmptyInput:
  assumes V: "helpers_never_raise (TypeError EmptyInput) V"
  shows "decodeValueFromLines V n c opts \<noteq> Some (Inl (TypeError EmptyInput))"
proof -
  from decoders_no_EmptyInput [OF V, of n]
  have ar: "\<And>h iv c d opts. decodeArrayFromHeader V n h iv c d opts \<noteq> Some (Inl (TypeError EmptyInput))"
    and ob: "\<And>c d opts. decodeObject V n c d opts \<noteq> Some (Inl (TypeError EmptyInput))"
    unfolding decodeObject_def by simp_all
  then show ?thesis
    unfolding decodeValueFromLines_def
    by (auto simp: bind_result_eq_error split: option.splits prod.splits sum.splits if_splits)
qed

lemma spec_validation_never_EmptyInput: "helpers_never_raise (TypeError EmptyInput) spec_validation"
  by (simp add: helpers_never_raise_def spec_validation_def split: option.splits)

lemma strict_error_not_EmptyInput [simp]: "strict_error n k r \<noteq> TypeError EmptyInput"
  by (simp add: strict_error_def)

section \<open>Claims about the array bodies\<close>




section \<open>Claims about the line scanner and the entry point\<close>

text \<open>
  Claim C8, as amended. \<open>decode\<close> raises the EmptyInput error if and only if the input
  is empty or consists of white space only (the validation helpers, whose source is
  missing, are taken not to raise that error themselves). The EmptyInput branch is taken
  for no other input: for an input with a character that is not white space, the scan
  either raises one of the two strict-mode indentation errors (only in strict mode), and
  \<open>decode\<close> raises that error, or it yields at least one parsed line, and \<open>decode\<close>
  goes on to decode the lines.
\<close>

theorem decode_empty_input:
  assumes "helpers_never_raise (TypeError EmptyInput) V"
  shows
  "(decode V input opts = Some (Inl (TypeError EmptyInput)) \<longleftrightarrow> trim input = []) \<and>
   (trim input = [] \<longleftrightarrow> (\<forall>ch \<in> set input. isWhiteSpace ch)) \<and>
   ((\<exists>scanResult. toParsedLines input (opt_indent opts) (strict opts) = Inr scanResult \<and>
                   scan_lines scanResult = []) \<longleftrightarrow> trim input = []) \<and>
   (trim input \<noteq> [] \<longrightarrow>
      (case toParsedLines input (opt_indent opts) (strict opts) of
         Inl e \<Rightarrow>
           strict opts \<and> (\<exists>k raw'. e = strict_error (opt_indent opts) k raw') \<and>
           decode V input opts = Some (Inl e)
       | Inr scanResult \<Rightarrow>
           scan_lines scanResult \<noteq> [] \<and>
           decode V input opts =
             decodeValueFromLines V (decode_fuel (scan_lines scanResult))
               (new_LineCursor (scan_lines scanResult) (scan_blankLines scanResult)) opts))"
proof -
  have blank: "trim input = [] \<longrightarrow> decode V input opts = Some (Inl (TypeError EmptyInput))"
    by (simp add: decode_def toParsedLines_blank throw_def)
  have branch: "(\<exists>scanResult. toParsedLines input (opt_indent opts) (strict opts) = Inr scanResult \<and>
                   scan_lines scanResult = []) \<longleftrightarrow> trim input = []"
    using toParsedLines_nonblank(2) [of input "opt_indent opts" "strict opts"]
    by (auto simp: toParsedLines_blank)
  have nonblank: "trim input \<noteq> [] \<longrightarrow>
      (case toParsedLines input (opt_indent opts) (strict opts) of
         Inl e \<Rightarrow>
           strict opts \<and> (\<exists>k raw'. e = strict_error (opt_indent opts) k raw') \<and>
           decode V input opts = Some (Inl e)
       | Inr scanResult \<Rightarrow>
           scan_lines scanResult \<noteq> [] \<and>
           decode V input opts =
             decodeValueFromLines V (decode_fuel (scan_lines scanResult))
               (new_LineCursor (scan_lines scanResult) (scan_blankLines scanResult)) opts)"
  proof (intro impI)
    assume nb: "trim input \<noteq> []"
    show "case toParsedLines input (opt_indent opts) (strict opts) of
         Inl e \<Rightarrow>
           strict opts \<and> (\<exists>k raw'. e = strict_error (opt_indent opts) k raw') \<and>
           decode V input opts = Some (Inl e)
       | Inr scanResult \<Rightarrow>
           scan_lines scanResult \<noteq> [] \<and>
           decode V input opts =
             decodeValueFromLines V (decode_fuel (scan_lines scanResult))
               (new_LineCursor (scan_lines scanResult) (scan_blankLines scanResult)) opts"
    proof (cases "toParsedLines input (opt_indent opts) (strict opts)")
      case (Inl e)
      then have "toParsedLines_loop (split_lines input) 0 (opt_indent opts) (strict opts) [] [] = Inl e"
        using nb by (simp add: toParsedLines_def)
      from toParsedLines_loop_error [OF this] Inl show ?thesis
        by (simp add: decode_def throw_def)
    next
      case (Inr scanResult)
      from toParsedLines_nonblank(2) [OF nb Inr] Inr show ?thesis
        by (simp add: decode_def)
    qed
  qed
  have only_if: "decode V input opts = Some (Inl (TypeError EmptyInput)) \<longrightarrow> trim input = []"
  proof (rule impI, rule ccontr)
    assume d: "decode V input opts = Some (Inl (TypeError EmptyInput))" and nb: "trim input \<noteq> []"
    show False
    proof (cases "toParsedLines input (opt_indent opts) (strict opts)")
      case (Inl e)
      with nonblank nb d have "\<exists>k raw'. TypeError EmptyInput = strict_error (opt_indent opts) k raw'"
        by auto
      then show False
        by (metis strict_error_not_EmptyInput)
    next
      case (Inr scanResult)
      with nonblank nb d have "decodeValueFromLines V (decode_fuel (scan_lines scanResult))
          (new_LineCursor (scan_lines scanResult) (scan_blankLines scanResult)) opts =
        Some (Inl (TypeError EmptyInput))"
        by auto
      with decodeValueFromLines_no_EmptyInput [OF assms] show False
        by blast
    qed
  qed
  from blank only_if branch nonblank trim_empty_iff [of input] show ?thesis
    by blast
qed

theorem decode_empty_input_witness:
  "helpers_never_raise (TypeError EmptyInput) spec_validation \<and>
   trim ''  '' = [] \<and> decode spec_validation ''  '' (strict_options 2) = Some (Inl (TypeError EmptyInput)) \<and>
   trim ''hello'' \<noteq> [] \<and>
   decode spec_validation ''hello'' (strict_options 2) = Some (Inr (Primitive (PString ''hello''))) \<and>
   decode spec_validation ''hello'' (strict_options 2) \<noteq> Some (Inl (TypeError EmptyInput))"
proof -
  have v: "helpers_never_raise (TypeError EmptyInput) spec_validation"
    by (simp add: helpers_never_raise_def spec_validation_def split: option.splits)
  have b: "trim ''  '' = []" and n: "trim ''hello'' \<noteq> []"
    by (simp_all add: js_eval)
  have s: "toParsedLines ''hello'' (opt_indent (strict_options 2)) (strict (strict_options 2)) =
     Inr \<lparr>scan_lines = [\<lparr>raw = ''hello'', indent = 0, content = ''hello'', depth = 0, lineNumber = 1\<rparr>],
          scan_blankLines = []\<rparr>"
    by (simp add: strict_options_def toParsedLines_def js_eval computeDepthFromIndent_def
        cong: eval_congs)
  have r: "decodeValueFromLines spec_validation
       (decode_fuel [\<lparr>raw = ''hello'', indent = 0, content = ''hello'', depth = 0, lineNumber = 1\<rparr>])
       (new_LineCursor [\<lparr>raw = ''hello'', indent = 0, content = ''hello'', depth = 0, lineNumber = 1\<rparr>] [])
       (strict_options 2) = Some (Inr (Primitive (PString ''hello'')))"
    by (simp add: strict_options_def decoder_eval string_eval ok_def cong: eval_congs)
  from decode_empty_input [OF v, of "''  ''" "strict_options 2"] b
  have 1: "decode spec_validation ''  '' (strict_options 2) = Some (Inl (TypeError EmptyInput))"
    by blast
  from decode_empty_input [OF v, of "''hello''" "strict_options 2"] n
  have 2: "decode spec_validation ''hello'' (strict_options 2) \<noteq> Some (Inl (TypeError EmptyInput))"
    by blast
  from decode_empty_input [OF v, of "''hello''" "strict_options 2"] n s r
  have 3: "decode spec_validation ''hello'' (strict_options 2) = Some (Inr (Primitive (PString ''hello'')))"
    by simp
  from v b n 1 2 3 show ?thesis
    by blast
qed

text \<open>
  The claim as stated fails in strict mode: the input consisting of a tab and the letter
  \<open>a\<close> has a character that is not white space, yet the scan produces no parsed line;
  it raises the syntax error for a tab in the indentation of line 1.
\<close>

theorem scan_nonblank_counterexample:
  "trim ([TAB] @ ''a'') \<noteq> [] \<and>
   toParsedLines ([TAB] @ ''a'') 2 True = Inl (SyntaxError (TabsInIndentation 1)) \<and>
   decode spec_validation ([TAB] @ ''a'') (strict_options 2) =
     Some (Inl (SyntaxError (TabsInIndentation 1)))"
  by (simp add: decode_def strict_options_def toParsedLines_def js_eval throw_def
      computeDepthFromIndent_def cong: eval_congs)

text \<open>
  Claim C4, as amended. With a positive indent size: in strict mode, when some line that
  is not blank has a tab in its leading white space, or a positive space indent that is
  no exact multiple of the indent size, \<open>decode\<close> raises a syntax error for the first
  such line \<open>k\<close> (counted from 0), and the error carries the line number \<open>k + 1\<close>:
  the tab error if the line has a tab in its leading white space, the multiple error
  with the indent size and the indent found otherwise. A blank line (white space only)
  never offends, whatever its tabs and its indent: when no line that is not blank
  offends, the scan rejects nothing in strict mode either. In non-strict mode, and in
  strict mode when no line offends, the scan yields every line that is not blank, with
  its indent the number of leading spaces and its depth \<open>floor(indent / indentSize)\<close>,
  it records the blank lines apart, and \<open>decode\<close> decodes the lines.
\<close>

theorem strict_indentation:
  assumes "0 < opt_indent opts"
  shows
  "(strict opts \<and> k < length (split_lines input) \<and>
    offends (opt_indent opts) (split_lines input ! k) \<and>
    (\<forall>j < k. \<not> offends (opt_indent opts) (split_lines input ! j)) \<longrightarrow>
      decode V input opts =
        Some (Inl (SyntaxError
          (if tab_in_indentation (split_lines input ! k) then TabsInIndentation (k + 1)
           else IndentNotMultiple (k + 1) (opt_indent opts) (line_indent (split_lines input ! k)))))) \<and>
   (\<forall>l. is_blank_line l \<longrightarrow> \<not> offends (opt_indent opts) l) \<and>
   ((strict opts \<longrightarrow> (\<forall>l \<in> set (split_lines input). \<not> offends (opt_indent opts) l)) \<and>
    trim input \<noteq> [] \<longrightarrow>
      toParsedLines input (opt_indent opts) (strict opts) =
        Inr (scan_of (opt_indent opts) 0 (split_lines input)) \<and>
      (\<forall>pl \<in> set (scan_lines (scan_of (opt_indent opts) 0 (split_lines input))).
         indent pl = line_indent (raw pl) \<and>
         depth pl = computeDepthFromIndent (indent pl) (opt_indent opts) \<and>
         depth pl = indent pl div opt_indent opts) \<and>
      map raw (scan_lines (scan_of (opt_indent opts) 0 (split_lines input))) =
        filter (\<lambda>l. \<not> is_blank_line l) (split_lines input) \<and>
      length (scan_blankLines (scan_of (opt_indent opts) 0 (split_lines input))) =
        length (filter is_blank_line (split_lines input)) \<and>
      decode V input opts =
        decodeValueFromLines V
          (decode_fuel (scan_lines (scan_of (opt_indent opts) 0 (split_lines input))))
          (new_LineCursor (scan_lines (scan_of (opt_indent opts) 0 (split_lines input)))
             (scan_blankLines (scan_of (opt_indent opts) 0 (split_lines input)))) opts)"
proof (intro conjI impI allI)
  assume a: "strict opts \<and> k < length (split_lines input) \<and>
    offends (opt_indent opts) (split_lines input ! k) \<and>
    (\<forall>j < k. \<not> offends (opt_indent opts) (split_lines input ! j))"
  then have "\<not> is_blank_line (split_lines input ! k)" and "split_lines input ! k \<in> set (split_lines input)"
    by (simp_all add: offends_def)
  then have nb: "trim input \<noteq> []"
    using offends_nonblank_input by blast
  from a have "toParsedLines_loop (split_lines input) 0 (opt_indent opts) True [] [] =
      Inl (strict_error (opt_indent opts) (0 + k) (split_lines input ! k))"
    by (intro toParsedLines_loop_rejects) simp_all
  with a nb show "decode V input opts =
        Some (Inl (SyntaxError
          (if tab_in_indentation (split_lines input ! k) then TabsInIndentation (k + 1)
           else IndentNotMultiple (k + 1) (opt_indent opts) (line_indent (split_lines input ! k)))))"
    by (simp add: decode_def toParsedLines_def throw_def strict_error_def)
next
  fix l
  assume "is_blank_line l"
  then show "\<not> offends (opt_indent opts) l"
    by (simp add: offends_def)
next
  assume a: "(strict opts \<longrightarrow> (\<forall>l \<in> set (split_lines input). \<not> offends (opt_indent opts) l)) \<and>
    trim input \<noteq> []"
  have "toParsedLines_loop (split_lines input) 0 (opt_indent opts) (strict opts) [] [] =
     Inr \<lparr> scan_lines = [] @ scan_lines (scan_of (opt_indent opts) 0 (split_lines input)),
           scan_blankLines = [] @ scan_blankLines (scan_of (opt_indent opts) 0 (split_lines input)) \<rparr>"
    using a by (intro toParsedLines_loop_accepts) simp
  with a show s: "toParsedLines input (opt_indent opts) (strict opts) =
        Inr (scan_of (opt_indent opts) 0 (split_lines input))"
    by (simp add: toParsedLines_def)
  show "\<forall>pl \<in> set (scan_lines (scan_of (opt_indent opts) 0 (split_lines input))).
         indent pl = line_indent (raw pl) \<and>
         depth pl = computeDepthFromIndent (indent pl) (opt_indent opts) \<and>
         depth pl = indent pl div opt_indent opts"
    using scan_of_depth by (auto simp: computeDepthFromIndent_def)
  show "map raw (scan_lines (scan_of (opt_indent opts) 0 (split_lines input))) =
        filter (\<lambda>l. \<not> is_blank_line l) (split_lines input)"
    by (rule scan_of_raw)
  show "length (scan_blankLines (scan_of (opt_indent opts) 0 (split_lines input))) =
        length (filter is_blank_line (split_lines input))"
    by (rule scan_of_blank_count)
  from a toParsedLines_nonblank(2) [OF _ s]
  have ne: "scan_lines (scan_of (opt_indent opts) 0 (split_lines input)) \<noteq> []"
    by simp
  show "decode V input opts =
        decodeValueFromLines V
          (decode_fuel (scan_lines (scan_of (opt_indent opts) 0 (split_lines input))))
          (new_LineCursor (scan_lines (scan_of (opt_indent opts) 0 (split_lines input)))
             (scan_blankLines (scan_of (opt_indent opts) 0 (split_lines input)))) opts"
    by (rule decode_run [OF s ne refl])
qed

theorem strict_indentation_witness:
  "decode spec_validation odd_indent_input (strict_options 2) =
     Some (Inl (SyntaxError (IndentNotMultiple 2 2 3))) \<and>
   decode spec_validation odd_indent_input (lenient_options 2) =
     Some (Inr (JsonObject [(''a'', JsonObject [(''b'', Primitive (PNumber (Finite 1)))])])) \<and>
   toParsedLines tab_blank_example 2 True = Inr (scan_of 2 0 [''k: v'', [SPACE, TAB], ''m: w'']) \<and>
   map raw (scan_lines (scan_of 2 0 [''k: v'', [SPACE, TAB], ''m: w''])) = [''k: v'', ''m: w'']"
proof -
  have 1: "decode spec_validation odd_indent_input (strict_options 2) =
     Some (Inl (SyntaxError (IndentNotMultiple 2 2 3)))"
    using strict_indentation [of "strict_options 2" 1 odd_indent_input spec_validation] offends_odd_indent_input
    by (simp add: strict_options_def split_lines_odd_indent_input)
  have 2: "decode spec_validation odd_indent_input (lenient_options 2) =
     Some (Inr (JsonObject [(''a'', JsonObject [(''b'', Primitive (PNumber (Finite 1)))])]))"
    using strict_indentation [of "lenient_options 2" 0 odd_indent_input spec_validation] trim_odd_indent_input decode_lines_odd_indent_lenient
    by (simp add: lenient_options_def split_lines_odd_indent_input)
  have 3: "toParsedLines tab_blank_example 2 True = Inr (scan_of 2 0 [''k: v'', [SPACE, TAB], ''m: w'']) \<and>
     map raw (scan_lines (scan_of 2 0 [''k: v'', [SPACE, TAB], ''m: w''])) = [''k: v'', ''m: w'']"
    using strict_indentation [of "strict_options 2" 0 tab_blank_example spec_validation]
      facts_tab_blank_example
    by (simp add: strict_options_def)
  from 1 2 3 show ?thesis by simp
qed

text \<open>
  The claim as stated fails for blank lines: a line that consists of a tab has a tab in
  its leading white space, but the scan sets blank lines aside before the strict checks,
  so strict mode accepts the input \<^verbatim>\<open>a: x\<close>, tab, \<^verbatim>\<open>b: y\<close>.
\<close>

theorem blank_line_tab_counterexample:
  "split_lines blank_tab_input ! 1 = [TAB] \<and> tab_in_indentation [TAB] \<and>
   decode spec_validation blank_tab_input (strict_options 2) =
     Some (Inr (JsonObject [(''a'', Primitive (PString ''x'')), (''b'', Primitive (PString ''y''))]))"
proof -
  have s: "toParsedLines blank_tab_input (opt_indent (strict_options 2)) (strict (strict_options 2)) =
     Inr \<lparr>scan_lines = [\<lparr>raw = ''a: x'', indent = 0, content = ''a: x'', depth = 0, lineNumber = 1\<rparr>,
         \<lparr>raw = ''b: y'', indent = 0, content = ''b: y'', depth = 0, lineNumber = 3\<rparr>],
       scan_blankLines = [\<lparr>blank_lineNumber = 2, blank_indent = 0, blank_depth = 0\<rparr>]\<rparr>"
    by (simp add: strict_options_def toParsedLines_def split_lines_blank_tab_input blank_tab_input_def js_eval
        computeDepthFromIndent_def cong: eval_congs)
  have d: "decode spec_validation blank_tab_input (strict_options 2) =
     Some (Inr (JsonObject [(''a'', Primitive (PString ''x'')), (''b'', Primitive (PString ''y''))]))"
    by (rule decode_run [OF s])
      (simp_all add: strict_options_def decoder_eval string_eval cong: eval_congs)
  have t: "tab_in_indentation [TAB]"
    by (simp add: tab_in_indentation_def js_eval)
  from d t show ?thesis
    by (simp add: split_lines_blank_tab_input)
qed

section \<open>Claim about the entry rule\<close>

text \<open>
  Claim C5. The one-line input \<^verbatim>\<open>x "a:b"\<close> scans to exactly one parsed line, which is
  no root array header and has no colon outside quotes (\<open>findUnquotedChar\<close> finds
  none), so the entry rule asks for the primitive-token parse of the line, the string
  \<^verbatim>\<open>x "a:b"\<close>. \<open>decode\<close> returns an object instead, with the key \<^verbatim>\<open>x "a\<close> and the
  value \<^verbatim>\<open>b"\<close>: \<open>isKeyValueLine\<close> tests a line that does not start with a quote
  with \<^verbatim>\<open>content.includes(COLON)\<close>, which also finds a colon inside quotes.
\<close>

theorem quoted_colon_is_key_value:
  "toParsedLines quoted_colon_line 2 True =
     Inr \<lparr>scan_lines = [\<lparr>raw = quoted_colon_line, indent = 0, content = quoted_colon_line,
                              depth = 0, lineNumber = 1\<rparr>], scan_blankLines = []\<rparr> \<and>
   parseArrayHeaderLine quoted_colon_line DEFAULT_DELIMITER = Inr None \<and>
   findUnquotedChar quoted_colon_line COLON 0 = None \<and>
   parsePrimitiveToken (trim quoted_colon_line) = Inr (PString quoted_colon_line) \<and>
   decode spec_validation quoted_colon_line (strict_options 2) =
     Some (Inr (JsonObject [(''x '' @ [DOUBLE_QUOTE] @ ''a'', Primitive (PString (''b'' @ [DOUBLE_QUOTE])))]))"
proof -
  have s: "toParsedLines quoted_colon_line (opt_indent (strict_options 2)) (strict (strict_options 2)) =
     Inr \<lparr>scan_lines = [\<lparr>raw = quoted_colon_line, indent = 0, content = quoted_colon_line,
                              depth = 0, lineNumber = 1\<rparr>], scan_blankLines = []\<rparr>"
    by (simp add: strict_options_def toParsedLines_def quoted_colon_line_def js_eval
        computeDepthFromIndent_def cong: eval_congs)
  have d: "decode spec_validation quoted_colon_line (strict_options 2) =
     Some (Inr (JsonObject [(''x '' @ [DOUBLE_QUOTE] @ ''a'', Primitive (PString (''b'' @ [DOUBLE_QUOTE])))]))"
    by (rule decode_run [OF s])
      (simp_all add: strict_options_def quoted_colon_line_def decoder_eval string_eval cong: eval_congs)
  have h: "parseArrayHeaderLine quoted_colon_line DEFAULT_DELIMITER = Inr None"
    by (simp add: quoted_colon_line_def string_eval cong: eval_congs)
  have f: "findUnquotedChar quoted_colon_line COLON 0 = None"
    by (simp add: quoted_colon_line_def string_eval cong: eval_congs)
  have p: "parsePrimitiveToken (trim quoted_colon_line) = Inr (PString quoted_colon_line)"
    by (simp add: quoted_colon_line_def string_eval cong: eval_congs)
  from s d h f p show ?thesis
    by (simp add: strict_options_def)
qed

section \<open>Encoding and decoding: tokens\<close>





























section \<open>Encoding and decoding: key-value lines\<close>














section \<open>Encoding and decoding: objects\<close>









lemma cursor_index_simps [simp]:
  "c \<lparr> index := index c \<rparr> = c"
  "index (advance c) = index c + 1"
  "lines (advance c) = lines c"
  "(advance c) \<lparr> index := i \<rparr> = c \<lparr> index := i \<rparr>"
  by (simp_all add: advance_def)



section \<open>Encoding and decoding: the scan of the encoded lines\<close>








section \<open>Encoding and decoding: the entry point\<close>










section \<open>Claim about the round trip\<close>




end
